theory Spec2Isabelle
  imports Complex_Main "HOL-Library.Sublist" "HOL-Library.Log_Nat"
begin

section \<open>Paths, files and errors\<close>

text \<open>
  A \<open>pathlib.Path\<close> is modelled by its directory (\<open>parent\<close>) and its last component
  (\<open>name\<close>). Python \<open>bytes\<close> and \<open>str\<close> are both \<open>string\<close> (a list of 8-bit
  characters). The file system is an association list from paths to file contents; only
  regular files are listed, so \<open>is_file\<close> is a lookup. The order of the list stands for
  the order in which the operating system enumerates a directory.
\<close>

datatype Path = Path (parent: string) (name: string)

type_synonym filesystem = "(Path \<times> string) list"

text \<open>The exception classes the modelled code raises or catches.\<close>

datatype error =
    OSError | FileNotFoundError | KeyError | ValueError | TypeError
  | AttributeError | OverflowError | InvalidImageDataError

text \<open>\<open>FileNotFoundError\<close> is a subclass of \<open>OSError\<close>; \<open>IOError\<close> is \<open>OSError\<close>.\<close>

fun is_OSError :: "error \<Rightarrow> bool" where
  "is_OSError OSError = True"
| "is_OSError FileNotFoundError = True"
| "is_OSError _ = False"

definition str :: "Path \<Rightarrow> string" where
  "str p = parent p @ ''/'' @ name p"

definition is_file :: "filesystem \<Rightarrow> Path \<Rightarrow> bool" where
  "is_file fs p = (map_of fs p \<noteq> None)"

text \<open>\<open>p.stat().st_size\<close>; raises when the file is not there.\<close>

definition st_size :: "filesystem \<Rightarrow> Path \<Rightarrow> error + nat" where
  "st_size fs p = (case map_of fs p of None \<Rightarrow> Inl FileNotFoundError
                   | Some content \<Rightarrow> Inr (length content))"

text \<open>\<open>p.unlink()\<close>: removes the file, raises when it is not there.\<close>

definition unlink :: "Path \<Rightarrow> filesystem \<Rightarrow> error + filesystem" where
  "unlink p fs = (if is_file fs p then Inr (filter (\<lambda>e. fst e \<noteq> p) fs)
                  else Inl FileNotFoundError)"

text \<open>
  \<open>dir.rglob("*")\<close> restricted to regular files: every file whose directory is \<open>dir\<close>
  or lies below it. (Directories, which \<open>rglob\<close> also yields, fail every
  \<open>is_file\<close> test of the callers and are left out.)
\<close>

definition below :: "string \<Rightarrow> Path \<Rightarrow> bool" where
  "below dir p = (parent p = dir \<or> prefix (dir @ ''/'') (parent p))"

definition rglob :: "filesystem \<Rightarrow> string \<Rightarrow> Path list" where
  "rglob fs dir = filter (below dir) (map fst fs)"

section \<open>ContentHasher: \<open>get_hash\<close>\<close>

text \<open>
  An open file object is the bytes not yet read; \<open>fobj.read(n)\<close> returns the next
  \<open>n\<close> of them. The generator \<open>chunk_reader\<close> yields chunks until a read is empty.
\<close>

function chunk_reader :: "string \<Rightarrow> nat \<Rightarrow> string list" where
  "chunk_reader fobj chunk_size =
     (let chunk = take chunk_size fobj in
      if chunk = [] then [] else chunk # chunk_reader (drop chunk_size fobj) chunk_size)"
  by pat_completeness auto
termination
  by (relation "measure (\<lambda>(fobj, chunk_size). length fobj)") auto

declare chunk_reader.simps [simp del]

text \<open>
  A \<open>hashlib\<close> hash object is the bytes fed to it so far: \<open>update\<close> appends, and
  \<open>digest\<close> applies the algorithm to the whole. The algorithm is the parameter
  \<open>hash_algo\<close> of the source (\<open>hashlib.sha1\<close> by default).
\<close>

definition update :: "string \<Rightarrow> string \<Rightarrow> string" where
  "update hashobj data = hashobj @ data"

definition get_hash :: "filesystem \<Rightarrow> Path \<Rightarrow> bool \<Rightarrow> (string \<Rightarrow> 'd) \<Rightarrow> error + 'd" where
  "get_hash fs file first_chunk_only hash_algo =
     (case map_of fs file of
        None \<Rightarrow> Inl FileNotFoundError
      | Some f \<Rightarrow>
          Inr (hash_algo
            (if first_chunk_only then update [] (take 1024 f)
             else foldl update [] (chunk_reader f 1024))))"

section \<open>Classifying files by extension\<close>

text \<open>
  \<open>pathlib\<close>'s \<open>suffix\<close>: the part of the name from its last dot, unless that dot
  is the first or the last character. \<open>str.lower\<close> is modelled on ASCII letters.
\<close>

definition rfind :: "string \<Rightarrow> char \<Rightarrow> nat option" where
  "rfind s c = (case filter (\<lambda>i. s ! i = c) (rev [0..<length s]) of
                  [] \<Rightarrow> None | i # _ \<Rightarrow> Some i)"

definition suffix :: "Path \<Rightarrow> string" where
  "suffix p = (case rfind (name p) CHR ''.'' of
                 None \<Rightarrow> []
               | Some i \<Rightarrow> if 0 < i \<and> i < length (name p) - 1 then drop i (name p) else [])"

definition stem :: "Path \<Rightarrow> string" where
  "stem p = (case rfind (name p) CHR ''.'' of
               None \<Rightarrow> name p
             | Some i \<Rightarrow> if 0 < i \<and> i < length (name p) - 1 then take i (name p) else name p)"

definition lower_char :: "char \<Rightarrow> char" where
  "lower_char c = (let n = (of_char c :: nat) in
                   if 65 \<le> n \<and> n \<le> 90 then char_of (n + 32) else c)"

definition lower :: "string \<Rightarrow> string" where
  "lower s = map lower_char s"

definition video_formats :: "string list" where
  "video_formats = [''.mp4'', ''.gif'', ''.mov'', ''.webm'', ''.avi'', ''.wmv'', ''.rm'',
     ''.mpg'', ''.mpe'', ''.mpeg'', ''.mkv'', ''.m4v'', ''.mts'', ''.m2ts'']"

definition is_video :: "Path \<Rightarrow> bool" where
  "is_video file = (if lower (suffix file) \<notin> set video_formats then False else True)"

section \<open>DuplicateIndex: \<open>find_duplicates\<close>\<close>

text \<open>
  A \<open>defaultdict(list)\<close> is an association list in insertion order, as a Python
  dictionary iterates. \<open>dd_append k v\<close> is \<open>d[k].append(v)\<close>; \<open>dd_get\<close> reads
  an entry, the empty list when the key is absent.
\<close>

type_synonym ('k, 'v) multimap = "('k \<times> 'v list) list"

fun dd_append :: "'k \<Rightarrow> 'v \<Rightarrow> ('k, 'v) multimap \<Rightarrow> ('k, 'v) multimap" where
  "dd_append k v [] = [(k, [v])]"
| "dd_append k v ((k', vs) # d) =
     (if k' = k then (k', vs @ [v]) # d else (k', vs) # dd_append k v d)"

definition dd_get :: "('k, 'v) multimap \<Rightarrow> 'k \<Rightarrow> 'v list" where
  "dd_get d k = (case map_of d k of None \<Rightarrow> [] | Some vs \<Rightarrow> vs)"

text \<open>
  The first loop: every regular file the filter accepts is filed under its size; a file
  whose \<open>stat\<close> raises is passed over.
\<close>

definition size_step ::
  "filesystem \<Rightarrow> (Path \<Rightarrow> bool) \<Rightarrow> (nat, Path) multimap \<Rightarrow> Path \<Rightarrow> (nat, Path) multimap" where
  "size_step fs filter_function files_by_size path_item =
     (if is_file fs path_item \<and> filter_function path_item then
        (case st_size fs path_item of
           Inl e \<Rightarrow> files_by_size
         | Inr file_size \<Rightarrow> dd_append file_size path_item files_by_size)
      else files_by_size)"

text \<open>
  The second loop: within every size shared by two files or more, each file is filed under
  the pair of its size and the hash of its first 1024 bytes.
\<close>

definition small_step ::
  "filesystem \<Rightarrow> (string \<Rightarrow> 'd) \<Rightarrow> nat \<Rightarrow> (nat \<times> 'd, Path) multimap \<Rightarrow> Path
     \<Rightarrow> (nat \<times> 'd, Path) multimap" where
  "small_step fs hash_algo file_size files_by_small_hash path_item =
     (case get_hash fs path_item True hash_algo of
        Inl e \<Rightarrow> files_by_small_hash
      | Inr small_hash \<Rightarrow> dd_append (file_size, small_hash) path_item files_by_small_hash)"

definition small_loop ::
  "filesystem \<Rightarrow> (string \<Rightarrow> 'd) \<Rightarrow> (nat \<times> 'd, Path) multimap \<Rightarrow> nat \<times> Path list
     \<Rightarrow> (nat \<times> 'd, Path) multimap" where
  "small_loop fs hash_algo files_by_small_hash item =
     (if length (snd item) < 2 then files_by_small_hash
      else foldl (small_step fs hash_algo (fst item)) files_by_small_hash (snd item))"

text \<open>
  The third loop: within every (size, partial hash) shared by two files or more, each file
  is filed under the hash of its whole content, in the module-level \<open>files_by_full_hash\<close>.
\<close>

definition full_step ::
  "filesystem \<Rightarrow> (string \<Rightarrow> 'd) \<Rightarrow> ('d, Path) multimap \<Rightarrow> Path \<Rightarrow> ('d, Path) multimap" where
  "full_step fs hash_algo files_by_full_hash path_item =
     (case get_hash fs path_item False hash_algo of
        Inl e \<Rightarrow> files_by_full_hash
      | Inr full_hash \<Rightarrow> dd_append full_hash path_item files_by_full_hash)"

definition full_loop ::
  "filesystem \<Rightarrow> (string \<Rightarrow> 'd) \<Rightarrow> ('d, Path) multimap \<Rightarrow> Path list \<Rightarrow> ('d, Path) multimap" where
  "full_loop fs hash_algo files_by_full_hash files =
     (if length files < 2 then files_by_full_hash
      else foldl (full_step fs hash_algo) files_by_full_hash files)"

definition find_duplicates ::
  "filesystem \<Rightarrow> (string \<Rightarrow> 'd) \<Rightarrow> string \<Rightarrow> (Path \<Rightarrow> bool) \<Rightarrow> ('d, Path) multimap
     \<Rightarrow> ('d, Path) multimap" where
  "find_duplicates fs hash_algo path filter_function files_by_full_hash =
     (let files_by_size = foldl (size_step fs filter_function) [] (rglob fs path);
          files_by_small_hash = foldl (small_loop fs hash_algo) [] files_by_size
      in foldl (full_loop fs hash_algo) files_by_full_hash (map snd files_by_small_hash))"

text \<open>Two files are in the same duplicate group when one entry of the index lists both.\<close>

definition same_group :: "('d, Path) multimap \<Rightarrow> Path \<Rightarrow> Path \<Rightarrow> bool" where
  "same_group files_by_full_hash a b =
     list_ex (\<lambda>entry. a \<in> set (snd entry) \<and> b \<in> set (snd entry)) files_by_full_hash"

section \<open>Duplicate removal: \<open>remove_duplicates\<close>\<close>

text \<open>
  The inner loop \<open>for file in files\<close> deletes from the list it iterates over. Python's
  list iterator keeps an index \<open>i\<close> and stops when \<open>i\<close> reaches the current length, so
  the loop is a recursion on the index and the shrinking list.
\<close>

function remove_loop :: "nat \<Rightarrow> Path list \<Rightarrow> filesystem \<Rightarrow> error + (Path list \<times> filesystem)" where
  "remove_loop i files fs =
     (if i < length files then
        (let file = files ! i in
         if length files > 1 then
           (case unlink file fs of
              Inl e \<Rightarrow> Inl e
            | Inr fs' \<Rightarrow> remove_loop (Suc i) (remove1 file files) fs')
         else remove_loop (Suc i) files fs)
      else Inr (files, fs))"
  by pat_completeness auto
termination
  by (relation "measure (\<lambda>(i, files, fs). length files - i)")
     (auto simp: length_remove1)

declare remove_loop.simps [simp del]

text \<open>
  The outer loop over \<open>files_by_full_hash.values()\<close>, with the counter
  \<open>s_removed_duplicates_count\<close>. The lists are mutated in place, so the index is
  returned with what is left of each.
\<close>

fun remove_groups ::
  "('d, Path) multimap \<Rightarrow> filesystem \<Rightarrow> nat \<Rightarrow> error + (('d, Path) multimap \<times> filesystem \<times> nat)" where
  "remove_groups [] fs count = Inr ([], fs, count)"
| "remove_groups ((h, files) # rest) fs count =
     (if length files < 2 then
        (case remove_groups rest fs count of
           Inl e \<Rightarrow> Inl e
         | Inr (rest', fs', count') \<Rightarrow> Inr ((h, files) # rest', fs', count'))
      else
        (case remove_loop 0 files fs of
           Inl e \<Rightarrow> Inl e
         | Inr (files', fs') \<Rightarrow>
             (case remove_groups rest fs' (count + (length files - 1)) of
                Inl e \<Rightarrow> Inl e
              | Inr (rest', fs'', count') \<Rightarrow> Inr ((h, files') # rest', fs'', count'))))"

text \<open>
  \<open>remove_duplicates dir\<close>. The source passes the filter \<open>is_photo(f) or is_video(f)\<close>;
  it is the parameter \<open>filter_function\<close> here, as it is of \<open>find_duplicates\<close>.
\<close>

definition remove_duplicates ::
  "filesystem \<Rightarrow> (string \<Rightarrow> 'd) \<Rightarrow> string \<Rightarrow> (Path \<Rightarrow> bool) \<Rightarrow> ('d, Path) multimap \<Rightarrow> nat
     \<Rightarrow> error + (('d, Path) multimap \<times> filesystem \<times> nat)" where
  "remove_duplicates fs hash_algo dir filter_function files_by_full_hash s_removed_duplicates_count =
     remove_groups (find_duplicates fs hash_algo dir filter_function files_by_full_hash)
       fs s_removed_duplicates_count"

section \<open>CollisionSafeNamer: \<open>new_name_if_exists\<close>\<close>

text \<open>
  \<open>str_nat\<close> is the decimal rendering of an f-string; \<open>numbered file i\<close> is
  \<open>file.with_name(f"{file.stem}({i}){file.suffix}")\<close>.
\<close>

definition digit_char :: "nat \<Rightarrow> char" where
  "digit_char d = ''0123456789'' ! d"

function str_nat :: "nat \<Rightarrow> string" where
  "str_nat n = (if n < 10 then [digit_char n] else str_nat (n div 10) @ [digit_char (n mod 10)])"
  by pat_completeness auto
termination
  by (relation "measure (\<lambda>n. n)") auto

declare str_nat.simps [simp del]

definition with_name :: "Path \<Rightarrow> string \<Rightarrow> Path" where
  "with_name p n = Path (parent p) n"

definition numbered :: "Path \<Rightarrow> nat \<Rightarrow> Path" where
  "numbered file i = with_name file (stem file @ ''('' @ str_nat i @ '')'' @ suffix file)"

text \<open>
  The loop \<open>while True\<close> of \<open>new_name_if_exists\<close> ends because the file system is
  finite: some numbered name is longer than every file name in it. \<open>first_free\<close>, the
  first unused number from \<open>i\<close> on, only serves as the termination measure.
\<close>

lemma str_nat_bound: "n < 10 ^ length (str_nat n)"
proof (induction n rule: str_nat.induct)
  case (1 n)
  show ?case
  proof (cases "n < 10")
    case True
    then show ?thesis by (subst str_nat.simps) simp
  next
    case False
    with 1 have "n div 10 < 10 ^ length (str_nat (n div 10))" by simp
    then have "n < 10 * 10 ^ length (str_nat (n div 10))" by simp
    with False show ?thesis by (subst str_nat.simps) simp
  qed
qed

lemma numbered_long: "m < length (name (numbered p0 (10 ^ m + i)))"
proof -
  have "(10::nat) ^ m \<le> 10 ^ m + i" by simp
  also have "\<dots> < 10 ^ length (str_nat (10 ^ m + i))" by (rule str_nat_bound)
  finally have "m < length (str_nat (10 ^ m + i))" by simp
  then show ?thesis by (simp add: numbered_def with_name_def)
qed

lemma is_file_short:
  assumes "is_file fs p"
  shows "length (name p) \<le> sum_list (map (\<lambda>e. length (name (fst e))) fs)"
proof -
  from assms obtain f where "(p, f) \<in> set fs"
    by (auto simp: is_file_def dest: map_of_SomeD)
  then have "length (name p) \<in> set (map (\<lambda>e. length (name (fst e))) fs)"
    by force
  then show ?thesis by (simp add: member_le_sum_list)
qed

lemma numbered_free: "\<exists>j\<ge>i. \<not> is_file fs (numbered p0 j)"
proof -
  let ?m = "sum_list (map (\<lambda>e. length (name (fst e))) fs)"
  have "\<not> is_file fs (numbered p0 (10 ^ ?m + i))"
    using numbered_long [of ?m p0 i] is_file_short [of fs "numbered p0 (10 ^ ?m + i)"]
    by linarith
  then show ?thesis by (intro exI [of _ "10 ^ ?m + i"]) simp
qed

definition first_free :: "filesystem \<Rightarrow> Path \<Rightarrow> nat \<Rightarrow> nat" where
  "first_free fs p0 i = (LEAST j. i \<le> j \<and> \<not> is_file fs (numbered p0 j))"

lemma first_free: "i \<le> first_free fs p0 i \<and> \<not> is_file fs (numbered p0 (first_free fs p0 i))"
proof -
  from numbered_free [of i fs p0] obtain j where "i \<le> j \<and> \<not> is_file fs (numbered p0 j)"
    by blast
  then show ?thesis unfolding first_free_def by (rule LeastI)
qed

lemma first_free_step:
  assumes "is_file fs (numbered p0 i)"
  shows "first_free fs p0 (i + 1) - (i + 1) < first_free fs p0 i - i"
proof -
  note L = first_free [of i fs p0]
  with assms have "first_free fs p0 i \<noteq> i" by auto
  with L have L1:
    "i + 1 \<le> first_free fs p0 i \<and> \<not> is_file fs (numbered p0 (first_free fs p0 i))"
    by simp
  then have "first_free fs p0 (i + 1) \<le> first_free fs p0 i"
    unfolding first_free_def [of fs p0 "i + 1"] by (rule Least_le)
  with L1 show ?thesis by linarith
qed

text \<open>
  The state of the loop is the candidate \<open>new_name\<close>, the counter \<open>i\<close> and the
  dictionary \<open>rename_map\<close>, keyed by \<open>str(file)\<close>.
\<close>

function new_name_loop ::
  "filesystem \<Rightarrow> Path \<Rightarrow> Path \<Rightarrow> nat \<Rightarrow> (string \<rightharpoonup> Path) \<Rightarrow> Path \<times> (string \<rightharpoonup> Path)" where
  "new_name_loop fs file new_name i rename_map =
     (if \<not> is_file fs new_name then (new_name, rename_map)
      else new_name_loop fs file (numbered file i) (i + 1)
             (rename_map(str file \<mapsto> numbered file i)))"
  by pat_completeness auto
termination
proof (relation "measure (\<lambda>(fs, p0, new_name, i, rename_map).
              if \<not> is_file fs new_name then 0 else Suc (first_free fs p0 i - i))")
  show "wf (measure (\<lambda>(fs, p0, new_name, i, rename_map).
              if \<not> is_file fs new_name then 0 else Suc (first_free fs p0 i - i)))"
    by (rule wf_measure)
next
  fix fs :: filesystem and p0 new_name :: Path and i :: nat and rename_map :: "string \<rightharpoonup> Path"
  assume "\<not> \<not> is_file fs new_name"
  then show "((fs, p0, numbered p0 i, i + 1, rename_map(str p0 \<mapsto> numbered p0 i)),
           (fs, p0, new_name, i, rename_map)) \<in> measure (\<lambda>(fs, p0, new_name, i, rename_map).
              if \<not> is_file fs new_name then 0 else Suc (first_free fs p0 i - i))"
    using first_free_step [of fs p0 i] by (simp del: fun_upd_apply)
qed

declare new_name_loop.simps [simp del]

definition new_name_if_exists ::
  "filesystem \<Rightarrow> Path \<Rightarrow> (string \<rightharpoonup> Path) \<Rightarrow> Path \<times> (string \<rightharpoonup> Path)" where
  "new_name_if_exists fs file rename_map = new_name_loop fs file file 1 rename_map"

text \<open>
  \<open>shutil.copy2\<close>, and \<open>copy_to_target\<close> with its state: the file system, the
  rename map and the counter \<open>s_copied_files\<close>. The source tests
  \<open>is_photo(file) or is_video(file)\<close>; the test is the parameter \<open>is_media\<close>.
\<close>

definition copy2 :: "Path \<Rightarrow> Path \<Rightarrow> filesystem \<Rightarrow> error + filesystem" where
  "copy2 src dst fs =
     (case map_of fs src of
        None \<Rightarrow> Inl FileNotFoundError
      | Some f \<Rightarrow> Inr (filter (\<lambda>e. fst e \<noteq> dst) fs @ [(dst, f)]))"

definition copy_to_target ::
  "string \<Rightarrow> (Path \<Rightarrow> bool) \<Rightarrow> Path \<Rightarrow> filesystem \<times> (string \<rightharpoonup> Path) \<times> nat
     \<Rightarrow> error + filesystem \<times> (string \<rightharpoonup> Path) \<times> nat" where
  "copy_to_target FIXED_DIR is_media file st =
     (case st of (fs, rename_map, s_copied_files) \<Rightarrow>
        if is_media file then
          (case new_name_if_exists fs (Path FIXED_DIR (name file)) rename_map of
             (new_file, rename_map') \<Rightarrow>
               (case copy2 file new_file fs of
                  Inl e \<Rightarrow> Inl e
                | Inr fs' \<Rightarrow> Inr (fs', rename_map', s_copied_files + 1)))
        else Inr st)"

text \<open>
  \<open>for_all_files_recursive\<close> over the regular files of a walk (\<open>rglob fs dir\<close>), with
  the state the file function works on. An exception of the file function ends the loop.
\<close>

fun for_all_files_recursive ::
  "Path list \<Rightarrow> (Path \<Rightarrow> 's \<Rightarrow> error + 's) \<Rightarrow> (Path \<Rightarrow> bool) \<Rightarrow> 's \<Rightarrow> error + 's" where
  "for_all_files_recursive [] file_function filter_function st = Inr st"
| "for_all_files_recursive (directory_item # walk) file_function filter_function st =
     (if filter_function directory_item then
        (case file_function directory_item st of
           Inl e \<Rightarrow> Inl e
         | Inr st' \<Rightarrow> for_all_files_recursive walk file_function filter_function st')
      else for_all_files_recursive walk file_function filter_function st)"

section \<open>Sidecar JSON values\<close>

text \<open>
  What \<open>json.load\<close> returns. A Python \<open>float\<close> is the rational number it denotes:
  \<open>JFloat\<close> holds the value of a finite binary64 number (\<open>nan\<close> and the infinities
  are left out); \<open>getitem\<close> is subscription \<open>v[k]\<close> by a
  string, \<open>contains\<close> is \<open>k in v\<close>, and \<open>hashable\<close> tells whether a value can be
  a dictionary key.
\<close>

datatype json =
    JNull | JBool bool | JInt int | JFloat rat | JStr string
  | JArr "json list" | JObj "(string \<times> json) list"

fun getitem :: "json \<Rightarrow> string \<Rightarrow> error + json" where
  "getitem (JObj kvs) k = (case map_of kvs k of None \<Rightarrow> Inl KeyError | Some v \<Rightarrow> Inr v)"
| "getitem _ k = Inl TypeError"

fun contains :: "json \<Rightarrow> string \<Rightarrow> error + bool" where
  "contains (JObj kvs) k = Inr (map_of kvs k \<noteq> None)"
| "contains (JArr vs) k = Inr (JStr k \<in> set vs)"
| "contains (JStr s) k = Inr (list_ex (prefix k) (suffixes s))"
| "contains _ k = Inl TypeError"

fun hashable :: "json \<Rightarrow> bool" where
  "hashable (JArr vs) = False"
| "hashable (JObj kvs) = False"
| "hashable _ = True"

section \<open>The EXIF codec and the run's state\<close>

text \<open>
  The dictionary of \<open>piexif.load\<close> has one table per IFD; the code touches \<open>"0th"\<close>,
  \<open>"Exif"\<close> and \<open>"GPS"\<close>. A table maps tag numbers to values. The tag numbers are those
  of \<open>piexif.ExifIFD\<close> and \<open>piexif.GPSIFD\<close>.
\<close>

datatype exif_val =
    EBytes string | EStr string | EInt int | EInts "int list"
  | ERational "int \<times> int" | ERationals "(int \<times> int) list"

type_synonym ifd = "nat \<rightharpoonup> exif_val"

record exif_dict =
  zeroth :: ifd
  Exif :: ifd
  GPS :: ifd

definition TAG_DATE_TIME_ORIGINAL :: nat where "TAG_DATE_TIME_ORIGINAL = 36867"
definition TAG_DATE_TIME_DIGITIZED :: nat where "TAG_DATE_TIME_DIGITIZED = 36868"
definition TAG_DATE_TIME :: nat where "TAG_DATE_TIME = 306"

definition GPSVersionID :: nat where "GPSVersionID = 0"
definition GPSLatitudeRef :: nat where "GPSLatitudeRef = 1"
definition GPSLatitude :: nat where "GPSLatitude = 2"
definition GPSLongitudeRef :: nat where "GPSLongitudeRef = 3"
definition GPSLongitude :: nat where "GPSLongitude = 4"
definition GPSAltitudeRef :: nat where "GPSAltitudeRef = 5"
definition GPSAltitude :: nat where "GPSAltitude = 6"

text \<open>The fallback \<open>{"0th": {}, "Exif": {}}\<close> used when \<open>piexif.load\<close> raises.\<close>

definition empty_exif :: exif_dict where
  "empty_exif = \<lparr>zeroth = Map.empty, Exif = Map.empty, GPS = Map.empty\<rparr>"

definition DATE_NOT_FOUND_DATE :: string where
  "DATE_NOT_FOUND_DATE = ''1971:01:01 01:01:01''"

text \<open>
  The state of the metadata phase: the files, the EXIF block of each file that
  \<open>piexif.load\<close> can read (\<open>None\<close>: it raises), the modification times, the per-folder
  title index \<open>_all_jsons_dict\<close>, and the four report lists of \<open>main\<close>.
\<close>

record state =
  files :: filesystem
  exif :: "Path \<rightharpoonup> exif_dict"
  mtime :: "Path \<rightharpoonup> int"
  all_jsons_dict :: "string \<rightharpoonup> (json \<times> json) list"
  s_cant_insert_exif_files :: "string list"
  s_date_from_folder_files :: "string list"
  s_no_json_found :: "string list"
  s_no_date_at_all :: "string list"

text \<open>
  The library calls whose results the code branches on are parameters: \<open>json.load\<close> on the
  bytes of a file, \<open>int\<close> on a string, \<open>strptime(s, "%Y:%m:%d %H:%M:%S").timestamp()\<close>,
  \<open>fromtimestamp(t).strftime("%Y:%m:%d %H:%M:%S")\<close> (each \<open>None\<close> when it raises),
  whether \<open>piexif.insert(piexif.dump(d), file)\<close> succeeds, and whether \<open>os.utime\<close> does.
\<close>

record lib =
  json_load :: "string \<Rightarrow> json option"
  int_of_str :: "string \<Rightarrow> int option"
  strptime :: "string \<Rightarrow> int option"
  strftime :: "int \<Rightarrow> string option"
  piexif_insert :: "exif_dict \<Rightarrow> Path \<Rightarrow> bool"
  utime :: "Path \<Rightarrow> bool"

fun py_int :: "lib \<Rightarrow> json \<Rightarrow> error + int" where
  "py_int lib (JInt n) = Inr n"
| "py_int lib (JBool b) = Inr (if b then 1 else 0)"
| "py_int lib (JFloat r) = Inr (if 0 \<le> r then \<lfloor>r\<rfloor> else \<lceil>r\<rceil>)"
| "py_int lib (JStr s) = (case int_of_str lib s of None \<Rightarrow> Inl ValueError | Some n \<Rightarrow> Inr n)"
| "py_int lib _ = Inl TypeError"

definition read_json :: "lib \<Rightarrow> filesystem \<Rightarrow> Path \<Rightarrow> error + json" where
  "read_json lib fs p =
     (case map_of fs p of
        None \<Rightarrow> Inl FileNotFoundError
      | Some f \<Rightarrow> (case json_load lib f of None \<Rightarrow> Inl ValueError | Some j \<Rightarrow> Inr j))"

definition ends_with :: "string \<Rightarrow> string \<Rightarrow> bool" where
  "ends_with s e = (length e \<le> length s \<and> drop (length s - length e) s = e)"

definition rglob_json :: "filesystem \<Rightarrow> string \<Rightarrow> Path list" where
  "rglob_json fs dir = filter (\<lambda>p. ends_with (name p) ''.json'') (rglob fs dir)"

section \<open>SidecarResolver: \<open>find_json_for_file\<close>, \<open>find_album_meta_json_file\<close>\<close>

text \<open>
  \<open>load_json_file\<close> is the body of the loop that fills the title index of a folder: a file
  that cannot be read or has no title is passed over. The assignment
  \<open>_all_jsons_dict[parent][json_dict["title"]] = json_dict\<close> creates the folder's entry
  before it evaluates the title. Titles are compared as values of \<open>json\<close>; the lookup is
  always by a file name, a string.
\<close>

fun dict_set :: "'k \<Rightarrow> 'v \<Rightarrow> ('k \<times> 'v) list \<Rightarrow> ('k \<times> 'v) list" where
  "dict_set k v [] = [(k, v)]"
| "dict_set k v ((k', v') # d) = (if k' = k then (k', v) # d else (k', v') # dict_set k v d)"

definition load_json_file ::
  "lib \<Rightarrow> filesystem \<Rightarrow> string \<Rightarrow> (string \<rightharpoonup> (json \<times> json) list) \<Rightarrow> Path
     \<Rightarrow> (string \<rightharpoonup> (json \<times> json) list)" where
  "load_json_file lib fs dir d json_file =
     (case read_json lib fs json_file of
        Inl e \<Rightarrow> d
      | Inr json_dict \<Rightarrow>
          (case contains json_dict ''title'' of
             Inl e \<Rightarrow> d
           | Inr has_title \<Rightarrow>
               if has_title then
                 (let folder = (case d dir of None \<Rightarrow> [] | Some idx \<Rightarrow> idx);
                      d1 = d(dir \<mapsto> folder)
                  in case getitem json_dict ''title'' of
                       Inl e \<Rightarrow> d1
                     | Inr title \<Rightarrow>
                         if hashable title then d(dir \<mapsto> dict_set title json_dict folder)
                         else d1)
               else d))"

text \<open>
  \<open>find_json_for_file\<close> returns the sidecar or raises \<open>FileNotFoundError\<close>; the state
  it leaves is returned in both cases.
\<close>

definition find_json_for_file :: "lib \<Rightarrow> Path \<Rightarrow> state \<Rightarrow> (error + json) \<times> state" where
  "find_json_for_file lib path_obj st =
     (let potential_json = with_name path_obj (name path_obj @ ''.json'') in
      if is_file (files st) potential_json then
        (case read_json lib (files st) potential_json of
           Inl e \<Rightarrow> (Inl FileNotFoundError, st)
         | Inr json_dict \<Rightarrow> (Inr json_dict, st))
      else
        (let st1 =
               (if all_jsons_dict st (parent path_obj) = None then
                  st\<lparr>all_jsons_dict :=
                       foldl (load_json_file lib (files st) (parent path_obj)) (all_jsons_dict st)
                         (rglob_json (files st) (parent path_obj))\<rparr>
                else st)
         in case all_jsons_dict st1 (parent path_obj) of
              None \<Rightarrow>
                (Inl FileNotFoundError, st1\<lparr>s_no_json_found := s_no_json_found st1 @ [str path_obj]\<rparr>)
            | Some idx \<Rightarrow>
                (case map_of idx (JStr (name path_obj)) of
                   None \<Rightarrow>
                     (Inl FileNotFoundError,
                      st1\<lparr>s_no_json_found := s_no_json_found st1 @ [str path_obj]\<rparr>)
                 | Some json_dict \<Rightarrow> (Inr json_dict, st1))))"

text \<open>
  \<open>find_album_meta_json_file\<close> is memoised with \<open>lru_cache\<close> in the source; its result
  depends on the JSON files only, which the metadata phase never writes, so the cache is not
  part of the state.
\<close>

fun find_album_meta :: "lib \<Rightarrow> filesystem \<Rightarrow> Path list \<Rightarrow> Path option" where
  "find_album_meta lib fs [] = None"
| "find_album_meta lib fs (file # rest) =
     (case read_json lib fs file of
        Inl e \<Rightarrow> find_album_meta lib fs rest
      | Inr dict \<Rightarrow>
          (case contains dict ''albumData'' of
             Inl e \<Rightarrow> find_album_meta lib fs rest
           | Inr has \<Rightarrow> if has then Some file else find_album_meta lib fs rest))"

definition find_album_meta_json_file :: "lib \<Rightarrow> filesystem \<Rightarrow> string \<Rightarrow> Path option" where
  "find_album_meta_json_file lib fs dir = find_album_meta lib fs (rglob_json fs dir)"

definition album_timestamp :: "json \<Rightarrow> error + json" where
  "album_timestamp album_dict =
     (case getitem album_dict ''albumData'' of
        Inl e \<Rightarrow> Inl e
      | Inr a \<Rightarrow>
          (case getitem a ''date'' of
             Inl e \<Rightarrow> Inl e
           | Inr d \<Rightarrow> getitem d ''timestamp''))"

definition get_date_from_folder_meta :: "lib \<Rightarrow> filesystem \<Rightarrow> string \<Rightarrow> error + string option" where
  "get_date_from_folder_meta lib fs path_obj =
     (case find_album_meta_json_file lib fs path_obj of
        None \<Rightarrow> Inr None
      | Some json_file \<Rightarrow>
          (case read_json lib fs json_file of
             Inl e \<Rightarrow> Inl e
           | Inr album_dict \<Rightarrow>
               (case album_timestamp album_dict of
                  Inl e \<Rightarrow> if e = KeyError then Inr None else Inl e
                | Inr t \<Rightarrow>
                    (case py_int lib t of
                       Inl e \<Rightarrow> Inl e
                     | Inr time \<Rightarrow>
                         (case strftime lib time of
                            None \<Rightarrow> Inl OverflowError
                          | Some date \<Rightarrow> Inr (Some date))))))"

section \<open>Dates\<close>

text \<open>
  \<open>normalise_datetime\<close> is the chain of \<open>replace\<close> calls and the slice \<open>[:19]\<close> of
  \<open>set_creation_date_from_str\<close>, which turns every exception into \<open>ValueError\<close>.
\<close>

definition replace_char :: "char \<Rightarrow> char \<Rightarrow> string \<Rightarrow> string" where
  "replace_char old new s = map (\<lambda>c. if c = old then new else c) s"

fun replace_colon_space :: "string \<Rightarrow> string" where
  "replace_colon_space (c # c' # s) =
     (if c = CHR '':'' \<and> c' = CHR '' '' then CHR '':'' # CHR ''0'' # replace_colon_space s
      else c # replace_colon_space (c' # s))"
| "replace_colon_space s = s"

definition normalise_datetime :: "string \<Rightarrow> string" where
  "normalise_datetime str_datetime =
     take 19 (replace_colon_space
       (replace_char (CHR 0x5C) CHR '':''
         (replace_char CHR ''.'' CHR '':''
           (replace_char CHR ''/'' CHR '':''
             (replace_char CHR ''-'' CHR '':'' str_datetime)))))"

definition set_creation_date_from_str :: "lib \<Rightarrow> Path \<Rightarrow> string \<Rightarrow> state \<Rightarrow> error + state" where
  "set_creation_date_from_str lib file str_datetime st =
     (case strptime lib (normalise_datetime str_datetime) of
        None \<Rightarrow> Inl ValueError
      | Some timestamp \<Rightarrow>
          if utime lib file then Inr (st\<lparr>mtime := (mtime st)(file \<mapsto> timestamp)\<rparr>)
          else Inl ValueError)"

fun decode :: "exif_val \<Rightarrow> error + string" where
  "decode (EBytes s) = Inr s"
| "decode _ = Inl AttributeError"

fun try_tags ::
  "lib \<Rightarrow> Path \<Rightarrow> exif_dict \<Rightarrow> ((exif_dict \<Rightarrow> ifd) \<times> nat) list \<Rightarrow> state \<Rightarrow> error + state" where
  "try_tags lib file exif_dict [] st = Inl OSError"
| "try_tags lib file exif_dict (tag # tags) st =
     (case (fst tag) exif_dict (snd tag) of
        None \<Rightarrow> try_tags lib file exif_dict tags st
      | Some v \<Rightarrow>
          (case decode v of
             Inl e \<Rightarrow> Inl e
           | Inr datetime_str \<Rightarrow>
               (case set_creation_date_from_str lib file datetime_str st of
                  Inl e \<Rightarrow>
                    if e = KeyError \<or> e = ValueError then try_tags lib file exif_dict tags st
                    else Inl e
                | Inr st' \<Rightarrow> Inr st')))"

definition set_creation_date_from_exif :: "lib \<Rightarrow> Path \<Rightarrow> state \<Rightarrow> error + state" where
  "set_creation_date_from_exif lib file st =
     (case exif st file of
        None \<Rightarrow> Inl OSError
      | Some exif_dict \<Rightarrow>
          try_tags lib file exif_dict
            [(zeroth, TAG_DATE_TIME), (Exif, TAG_DATE_TIME_ORIGINAL), (Exif, TAG_DATE_TIME_DIGITIZED)]
            st)"

definition set_file_exif_date :: "lib \<Rightarrow> Path \<Rightarrow> string \<Rightarrow> state \<Rightarrow> state" where
  "set_file_exif_date lib file creation_date st =
     (let exif_dict = (case exif st file of None \<Rightarrow> empty_exif | Some d \<Rightarrow> d);
          creation_date' = EBytes creation_date;
          exif_dict' = exif_dict
            \<lparr>zeroth := (zeroth exif_dict)(TAG_DATE_TIME \<mapsto> creation_date'),
             Exif := (Exif exif_dict)(TAG_DATE_TIME_ORIGINAL \<mapsto> creation_date',
                                      TAG_DATE_TIME_DIGITIZED \<mapsto> creation_date')\<rparr>
      in if piexif_insert lib exif_dict' file then st\<lparr>exif := (exif st)(file \<mapsto> exif_dict')\<rparr>
         else st\<lparr>s_cant_insert_exif_files := s_cant_insert_exif_files st @ [str file]\<rparr>)"

definition get_date_str_from_json :: "lib \<Rightarrow> json \<Rightarrow> error + string" where
  "get_date_str_from_json lib json_file =
     (case getitem json_file ''photoTakenTime'' of
        Inl e \<Rightarrow> Inl e
      | Inr p \<Rightarrow>
          (case getitem p ''timestamp'' of
             Inl e \<Rightarrow> Inl e
           | Inr t \<Rightarrow>
               (case py_int lib t of
                  Inl e \<Rightarrow> Inl e
                | Inr time \<Rightarrow>
                    (case strftime lib time of
                       None \<Rightarrow> Inl OverflowError
                     | Some date \<Rightarrow> Inr date))))"

section \<open>GPS: \<open>set_file_geo_data\<close>\<close>

text \<open>
  Floating point. A \<open>float\<close> is a binary64 number, here the rational it denotes, and
  every operation of the source on floats returns the exact result rounded to the nearest
  binary64 number, a tie going to the even significand. \<open>float_exponent x\<close> is the
  exponent \<open>e\<close> with \<open>2 ^ e \<le> \<bar>x\<bar> < 2 ^ (e + 1)\<close>; the spacing of the binary64 numbers
  near \<open>x\<close> is \<open>2 ^ (e - 52)\<close>, and \<open>2 ^ - 1074\<close> below the smallest normal number
  \<open>2 ^ - 1022\<close>. \<open>rnd\<close> is that rounding; overflow to infinity is left out, the
  operands of \<open>degToDmsRational\<close> being far below it. \<open>mod1 x\<close> is \<open>x % 1\<close>:
  CPython computes \<open>fmod(x, 1.0)\<close>, which is exact, and adds \<open>1.0\<close> to a negative
  remainder, which rounds; both cases are the rounding of \<open>x - floor(x)\<close>.
  \<open>py_round\<close> is \<open>round\<close> with one argument, which is exact on a float and rounds a
  half to the even neighbour; \<open>change_to_rational\<close> is applied to that integer only.
\<close>

definition change_to_rational :: "int \<Rightarrow> int \<times> int" where
  "change_to_rational number = (number, 1)"

definition py_round :: "rat \<Rightarrow> int" where
  "py_round x =
     (if frac x < 1 / 2 then \<lfloor>x\<rfloor>
      else if 1 / 2 < frac x then \<lfloor>x\<rfloor> + 1
      else if even \<lfloor>x\<rfloor> then \<lfloor>x\<rfloor> else \<lfloor>x\<rfloor> + 1)"

definition float_exponent :: "rat \<Rightarrow> int" where
  "float_exponent x =
     (case quotient_of \<bar>x\<bar> of
        (n, d) \<Rightarrow> (let e = bitlen n - bitlen d in if 2 powi e \<le> \<bar>x\<bar> then e else e - 1))"

definition rnd :: "rat \<Rightarrow> rat" where
  "rnd x =
     (if x = 0 then 0
      else (let ulp = 2 powi (max (float_exponent x) (- 1022) - 52)
            in of_int (py_round (x / ulp)) * ulp))"

definition mod1 :: "rat \<Rightarrow> rat" where
  "mod1 x = rnd (x - of_int \<lfloor>x\<rfloor>)"

text \<open>
  \<open>degToDmsRational\<close>, each floating-point operation of lines 507 to 511 rounded in
  turn: \<open>degFloat % 1\<close>, \<open>* 60\<close>, \<open>min_float % 1\<close>, \<open>* 60\<close> and \<open>sec_float * 100\<close>.
  \<open>math.floor\<close> and \<open>round\<close> return integers and are exact.
\<close>

definition degToDmsRational :: "rat \<Rightarrow> (int \<times> int) list" where
  "degToDmsRational degFloat =
     (let min_float = rnd (mod1 degFloat * 60);
          sec_float = rnd (mod1 min_float * 60);
          deg = \<lfloor>degFloat\<rfloor>;
          deg_min = \<lfloor>min_float\<rfloor>;
          sec = py_round (rnd (sec_float * 100))
      in [(deg, 1), (deg_min, 1), (sec, 100)])"

text \<open>
  The angle in degrees that a triple of rationals (degrees, minutes, seconds) of a GPS
  coordinate tag denotes; it is the measure of what \<open>degToDmsRational\<close> writes.
\<close>

fun dms_value :: "(int \<times> int) list \<Rightarrow> rat" where
  "dms_value [(a, b), (c, d), (e, f)] =
     of_int a / of_int b + of_int c / of_int d / 60 + of_int e / of_int f / 3600"
| "dms_value _ = 0"

text \<open>
  \<open>str_to_float\<close> is the local function \<open>_str_to_float\<close>: \<open>float(num)\<close> of an
  \<open>int\<close> rounds it to the nearest binary64 number and raises \<open>OverflowError\<close> when
  there is none, of a \<open>bool\<close> gives 1.0 or 0.0, of \<open>None\<close>, a list or a dictionary
  raises \<open>TypeError\<close>. \<open>geo_select\<close> is the reading of \<open>geoData\<close> with the fallback to
  \<open>geoDataExif\<close>, and \<open>gps_ifd_of\<close> the construction of \<open>gps_ifd\<close> from the selected
  values.
\<close>

fun str_to_float :: "json \<Rightarrow> error + rat" where
  "str_to_float (JStr s) = Inr 0"
| "str_to_float (JInt n) =
     (if \<bar>rnd (of_int n)\<bar> < 2 ^ 1024 then Inr (rnd (of_int n)) else Inl OverflowError)"
| "str_to_float (JFloat r) = Inr r"
| "str_to_float (JBool b) = Inr (if b then 1 else 0)"
| "str_to_float _ = Inl TypeError"

definition geo_field :: "json \<Rightarrow> string \<Rightarrow> string \<Rightarrow> error + rat" where
  "geo_field json block field =
     (case getitem json block of
        Inl e \<Rightarrow> Inl e
      | Inr b \<Rightarrow> (case getitem b field of Inl e \<Rightarrow> Inl e | Inr num \<Rightarrow> str_to_float num))"

definition geo_triple :: "json \<Rightarrow> string \<Rightarrow> error + rat \<times> rat \<times> rat" where
  "geo_triple json block =
     (case geo_field json block ''longitude'' of
        Inl e \<Rightarrow> Inl e
      | Inr longitude \<Rightarrow>
          (case geo_field json block ''latitude'' of
             Inl e \<Rightarrow> Inl e
           | Inr latitude \<Rightarrow>
               (case geo_field json block ''altitude'' of
                  Inl e \<Rightarrow> Inl e
                | Inr altitude \<Rightarrow> Inr (longitude, latitude, altitude))))"

definition geo_select :: "json \<Rightarrow> error + rat \<times> rat \<times> rat" where
  "geo_select json =
     (case geo_triple json ''geoData'' of
        Inl e \<Rightarrow> Inl e
      | Inr (longitude, latitude, altitude) \<Rightarrow>
          if longitude = 0 \<and> latitude = 0 then geo_triple json ''geoDataExif''
          else Inr (longitude, latitude, altitude))"

definition gps_ifd_of :: "rat \<Rightarrow> rat \<Rightarrow> rat \<Rightarrow> ifd" where
  "gps_ifd_of longitude0 latitude0 altitude =
     (let longitude_ref = (if longitude0 \<ge> 0 then ''E'' else ''W'');
          longitude = (if longitude0 \<ge> 0 then longitude0 else longitude0 * - 1);
          latitude_ref = (if latitude0 \<ge> 0 then ''N'' else ''S'');
          latitude = (if latitude0 \<ge> 0 then latitude0 else latitude0 * - 1);
          gps_ifd = [GPSVersionID \<mapsto> EInts [2, 0, 0, 0]];
          gps_ifd = (if latitude \<noteq> 0 \<or> longitude \<noteq> 0 then
                       gps_ifd(GPSLatitudeRef \<mapsto> EStr latitude_ref,
                               GPSLatitude \<mapsto> ERationals (degToDmsRational latitude),
                               GPSLongitudeRef \<mapsto> EStr longitude_ref,
                               GPSLongitude \<mapsto> ERationals (degToDmsRational longitude))
                     else gps_ifd);
          gps_ifd = (if altitude \<noteq> 0 then
                       gps_ifd(GPSAltitudeRef \<mapsto> EInt 1,
                               GPSAltitude \<mapsto> ERational (change_to_rational (py_round altitude)))
                     else gps_ifd)
      in gps_ifd)"

definition set_file_geo_data :: "lib \<Rightarrow> Path \<Rightarrow> json \<Rightarrow> state \<Rightarrow> error + state" where
  "set_file_geo_data lib file json st =
     (let exif_dict = (case exif st file of None \<Rightarrow> empty_exif | Some d \<Rightarrow> d) in
      case geo_select json of
        Inl e \<Rightarrow> Inl e
      | Inr (longitude, latitude, altitude) \<Rightarrow>
          (let exif_dict' = exif_dict\<lparr>GPS := gps_ifd_of longitude latitude altitude\<rparr> in
           if piexif_insert lib exif_dict' file then Inr (st\<lparr>exif := (exif st)(file \<mapsto> exif_dict')\<rparr>)
           else Inr st))"

section \<open>MetadataFixer: \<open>fix_metadata\<close>\<close>

text \<open>
  \<open>sidecar_step\<close> is the body of the second \<open>try\<close> of \<open>fix_metadata\<close>, \<open>folder_step\<close>
  the code after \<open>if has_nice_date: return True\<close>, and \<open>after_exif\<close> everything after the
  first \<open>try\<close>. Only \<open>FileNotFoundError\<close> is caught around the sidecar step.
\<close>

definition sidecar_step :: "lib \<Rightarrow> Path \<Rightarrow> state \<Rightarrow> (error + bool) \<times> state" where
  "sidecar_step lib file_obj st =
     (case find_json_for_file lib file_obj st of
        (Inl e, st1) \<Rightarrow> (Inl e, st1)
      | (Inr google_json, st1) \<Rightarrow>
          (case get_date_str_from_json lib google_json of
             Inl e \<Rightarrow> (Inl e, st1)
           | Inr meta_date \<Rightarrow>
               (case set_file_geo_data lib file_obj google_json st1 of
                  Inl e \<Rightarrow> (Inl e, st1)
                | Inr st2 \<Rightarrow>
                    (let st3 = set_file_exif_date lib file_obj meta_date st2 in
                     case set_creation_date_from_str lib file_obj meta_date st3 of
                       Inl e \<Rightarrow> (Inl e, st3)
                     | Inr st4 \<Rightarrow> (Inr True, st4)))))"

definition folder_step :: "lib \<Rightarrow> Path \<Rightarrow> state \<Rightarrow> (error + bool) \<times> state" where
  "folder_step lib file_obj st =
     (case get_date_from_folder_meta lib (files st) (parent file_obj) of
        Inl e \<Rightarrow> (Inl e, st)
      | Inr found \<Rightarrow>
          (let meta_date = (case found of None \<Rightarrow> DATE_NOT_FOUND_DATE | Some date \<Rightarrow> date);
               st1 = (case found of
                        None \<Rightarrow> st\<lparr>s_no_date_at_all := s_no_date_at_all st @ [str file_obj]\<rparr>
                      | Some date \<Rightarrow> st);
               st2 = set_file_exif_date lib file_obj meta_date st1
           in case set_creation_date_from_str lib file_obj meta_date st2 of
                Inl e \<Rightarrow> (Inl e, st2)
              | Inr st3 \<Rightarrow>
                  (Inr True,
                   st3\<lparr>s_date_from_folder_files := s_date_from_folder_files st3 @ [str file_obj]\<rparr>)))"

definition after_exif :: "lib \<Rightarrow> Path \<Rightarrow> bool \<Rightarrow> state \<Rightarrow> (error + bool) \<times> state" where
  "after_exif lib file_obj has_nice_date st =
     (case sidecar_step lib file_obj st of
        (Inr r, st1) \<Rightarrow> (Inr True, st1)
      | (Inl e, st1) \<Rightarrow>
          if e = FileNotFoundError then
            (if has_nice_date then (Inr True, st1) else folder_step lib file_obj st1)
          else (Inl e, st1))"

definition fix_metadata :: "lib \<Rightarrow> Path \<Rightarrow> state \<Rightarrow> (error + bool) \<times> state" where
  "fix_metadata lib file_obj st =
     (case set_creation_date_from_exif lib file_obj st of
        Inr st1 \<Rightarrow> after_exif lib file_obj True st1
      | Inl e \<Rightarrow>
          if e = InvalidImageDataError \<or> e = ValueError \<or> is_OSError e
          then after_exif lib file_obj False st
          else (Inl e, st))"

text \<open>\<open>fix_metadata\<close> as the file function of \<open>for_all_files_recursive\<close>.\<close>

definition fix_metadata_file :: "lib \<Rightarrow> Path \<Rightarrow> state \<Rightarrow> error + state" where
  "fix_metadata_file lib file_obj st =
     (case fix_metadata lib file_obj st of (Inl e, st') \<Rightarrow> Inl e | (Inr r, st') \<Rightarrow> Inr st')"

section \<open>Example inputs\<close>

text \<open>
  A sidecar as Takeout writes it for a video without location: a \<open>geoData\<close> block of zeros
  and no \<open>geoDataExif\<close> block. \<open>example_lib\<close> gives the library calls on the inputs of
  the examples: \<open>json.load\<close> reads that text and rejects any other, the timestamps are
  rendered in UTC, and \<open>piexif.insert\<close> accepts JPEG files only.
\<close>

definition sidecar_text :: string where
  \<open>sidecar_text = ''{"title": "a.mp4", "photoTakenTime": {"timestamp": "1577836800"}, "geoData": {"latitude": 0.0, "longitude": 0.0, "altitude": 0.0}}''\<close>

definition sidecar_json :: json where
  "sidecar_json = JObj [(''title'', JStr ''a.mp4''),
     (''photoTakenTime'', JObj [(''timestamp'', JStr ''1577836800'')]),
     (''geoData'', JObj [(''latitude'', JFloat 0), (''longitude'', JFloat 0), (''altitude'', JFloat 0)])]"

definition example_lib :: lib where
  "example_lib =
     \<lparr>json_load = (\<lambda>s. if s = sidecar_text then Some sidecar_json else None),
      int_of_str = (\<lambda>s. if s = ''1577836800'' then Some 1577836800 else None),
      strptime = (\<lambda>s. if s = ''2020:01:01 00:00:00'' then Some 1577836800
                      else if s = ''1971:01:01 01:01:01'' then Some 31539661 else None),
      strftime = (\<lambda>t. if t = 1577836800 then Some ''2020:01:01 00:00:00'' else None),
      piexif_insert = (\<lambda>d p. lower (suffix p) = ''.jpg''),
      utime = (\<lambda>p. True)\<rparr>"

definition initial_state :: "filesystem \<Rightarrow> (Path \<rightharpoonup> exif_dict) \<Rightarrow> state" where
  "initial_state fs ex = \<lparr>files = fs, exif = ex, mtime = Map.empty, all_jsons_dict = Map.empty,
     s_cant_insert_exif_files = [], s_date_from_folder_files = [], s_no_json_found = [],
     s_no_date_at_all = []\<rparr>"

text \<open>
  Two sidecars with a zero \<open>geoData\<close> block, as parsed. The \<open>geoDataExif\<close> block of
  the first is latitude 45.125, longitude -122.0625 and altitude 30.5, three numbers that
  binary64 holds exactly.
\<close>

definition geo_json :: json where
  "geo_json = JObj
     [(''geoData'', JObj [(''latitude'', JFloat 0), (''longitude'', JFloat 0), (''altitude'', JFloat 0)]),
      (''geoDataExif'',
         JObj [(''latitude'', JFloat (361 / 8)), (''longitude'', JFloat (- (1953 / 16))),
               (''altitude'', JFloat (61 / 2))])]"

definition zero_json :: json where
  "zero_json = JObj
     [(''geoData'', JObj [(''latitude'', JFloat 0), (''longitude'', JFloat 0), (''altitude'', JFloat 0)]),
      (''geoDataExif'',
         JObj [(''latitude'', JFloat 0), (''longitude'', JFloat 0), (''altitude'', JFloat 0)])]"

section \<open>Properties of the hasher\<close>

lemma foldl_update: "foldl update acc cs = acc @ concat cs"
  by (induction cs arbitrary: acc) (simp_all add: update_def)

lemma concat_chunk_reader: "0 < n \<Longrightarrow> concat (chunk_reader f n) = f"
proof (induction f n rule: chunk_reader.induct)
  case (1 fobj chunk_size)
  show ?case
  proof (cases "take chunk_size fobj = []")
    case True
    with "1.prems" have "fobj = []" by simp
    then show ?thesis by (simp add: chunk_reader.simps)
  next
    case False
    with 1 have "concat (chunk_reader (drop chunk_size fobj) chunk_size) = drop chunk_size fobj"
      by simp
    with False show ?thesis
      by (subst chunk_reader.simps) (simp add: Let_def)
  qed
qed

lemma get_hash_full:
  "map_of fs file = Some f \<Longrightarrow> get_hash fs file False hash_algo = Inr (hash_algo f)"
  by (simp add: get_hash_def foldl_update concat_chunk_reader)

lemma get_hash_first:
  "map_of fs file = Some f \<Longrightarrow> get_hash fs file True hash_algo = Inr (hash_algo (take 1024 f))"
  by (simp add: get_hash_def update_def)

text \<open>
  C9. For a file of at most 1024 bytes the partial hash is the full hash:
  \<open>get_hash\<close> with \<open>first_chunk_only=True\<close> returns what it returns with
  \<open>first_chunk_only=False\<close>, whatever the hash algorithm.
\<close>

theorem get_hash_small_file:
  assumes "map_of fs file = Some f" and "length f \<le> 1024"
  shows "get_hash fs file True hash_algo = get_hash fs file False hash_algo"
  using assms by (simp add: get_hash_full get_hash_first)

theorem get_hash_small_file_witness:
  "map_of [(Path ''out'' ''a.jpg'', ''abc'')] (Path ''out'' ''a.jpg'') = Some ''abc''
   \<and> length ''abc'' \<le> 1024
   \<and> get_hash [(Path ''out'' ''a.jpg'', ''abc'')] (Path ''out'' ''a.jpg'') True (\<lambda>b. b)
     = get_hash [(Path ''out'' ''a.jpg'', ''abc'')] (Path ''out'' ''a.jpg'') False (\<lambda>b. b)"
  using get_hash_small_file [of "[(Path ''out'' ''a.jpg'', ''abc'')]" "Path ''out'' ''a.jpg''" "''abc''" "\<lambda>b. b"]
  by simp

section \<open>Properties of the duplicate index\<close>

lemma dd_get_append:
  "dd_get (dd_append k v d) k' = (if k' = k then dd_get d k' @ [v] else dd_get d k')"
  by (induction d) (auto simp: dd_get_def)

lemma keys_dd_append:
  "map fst (dd_append k v d) = (if k \<in> fst ` set d then map fst d else map fst d @ [k])"
  by (induction d) (force+)

lemma distinct_dd_append: "distinct (map fst d) \<Longrightarrow> distinct (map fst (dd_append k v d))"
  by (simp add: keys_dd_append)

lemma dd_get_size_loop:
  "dd_get (foldl (size_step fs ff) d xs) n =
   dd_get d n @ filter (\<lambda>p. is_file fs p \<and> ff p \<and> st_size fs p = Inr n) xs"
  by (induction xs arbitrary: d) (auto simp: size_step_def dd_get_append split: sum.splits)

lemma distinct_size_loop:
  "distinct (map fst d) \<Longrightarrow> distinct (map fst (foldl (size_step fs ff) d xs))"
  by (induction xs arbitrary: d) (auto simp: size_step_def distinct_dd_append split: sum.splits)

lemma dd_get_small_steps:
  "dd_get (foldl (small_step fs H sz) d xs) k =
   dd_get d k @ filter (\<lambda>p. get_hash fs p True H = Inr (snd k) \<and> fst k = sz) xs"
  by (induction xs arbitrary: d) (auto simp: small_step_def dd_get_append split: sum.splits)

lemma distinct_small_steps:
  "distinct (map fst d) \<Longrightarrow> distinct (map fst (foldl (small_step fs H sz) d xs))"
  by (induction xs arbitrary: d) (auto simp: small_step_def distinct_dd_append split: sum.splits)

lemma dd_get_Nil: "dd_get [] k = []"
  by (simp add: dd_get_def)

lemma dd_get_Cons: "dd_get ((k', vs) # d) k = (if k = k' then vs else dd_get d k)"
  by (simp add: dd_get_def)

lemma dd_get_absent: "k \<notin> fst ` set d \<Longrightarrow> dd_get d k = []"
  by (simp add: dd_get_def map_of_eq_None_iff [THEN iffD2])

lemma dd_get_small_loop1:
  "dd_get (small_loop fs H d (sz, fl)) k =
   dd_get d k @ (if fst k = sz \<and> 2 \<le> length fl
                 then filter (\<lambda>p. get_hash fs p True H = Inr (snd k)) fl else [])"
  by (auto simp: small_loop_def dd_get_small_steps filter_empty_conv)

lemma dd_get_small_loop:
  "distinct (map fst es) \<Longrightarrow>
   dd_get (foldl (small_loop fs H) d es) k =
   dd_get d k @ (if 2 \<le> length (dd_get es (fst k))
                 then filter (\<lambda>p. get_hash fs p True H = Inr (snd k)) (dd_get es (fst k)) else [])"
proof (induction es arbitrary: d)
  case Nil
  then show ?case by (simp add: dd_get_def)
next
  case (Cons e es)
  obtain sz fl where e: "e = (sz, fl)" by (cases e)
  from Cons.prems e have notin: "sz \<notin> fst ` set es" and dist: "distinct (map fst es)"
    by auto
  show ?case
  proof (cases "fst k = sz")
    case True
    with notin have "dd_get es (fst k) = []" by (simp add: dd_get_absent)
    with True show ?thesis
      by (simp add: e Cons.IH [OF dist] dd_get_small_loop1 dd_get_Cons)
  next
    case False
    then show ?thesis
      by (simp add: e Cons.IH [OF dist] dd_get_small_loop1 dd_get_Cons)
  qed
qed

lemma distinct_small_loop:
  "distinct (map fst d) \<Longrightarrow> distinct (map fst (foldl (small_loop fs H) d es))"
  by (induction es arbitrary: d) (auto simp: small_loop_def distinct_small_steps)

lemma dd_get_full_steps:
  "dd_get (foldl (full_step fs H) d xs) h =
   dd_get d h @ filter (\<lambda>p. get_hash fs p False H = Inr h) xs"
  by (induction xs arbitrary: d) (auto simp: full_step_def dd_get_append split: sum.splits)

lemma distinct_full_steps:
  "distinct (map fst d) \<Longrightarrow> distinct (map fst (foldl (full_step fs H) d xs))"
  by (induction xs arbitrary: d) (auto simp: full_step_def distinct_dd_append split: sum.splits)

lemma dd_get_full_loop:
  "dd_get (foldl (full_loop fs H) d vss) h =
   dd_get d h @ concat (map (\<lambda>fl. if length fl < 2 then [] else filter (\<lambda>p. get_hash fs p False H = Inr h) fl) vss)"
  by (induction vss arbitrary: d) (auto simp: full_loop_def dd_get_full_steps)

lemma distinct_full_loop:
  "distinct (map fst d) \<Longrightarrow> distinct (map fst (foldl (full_loop fs H) d vss))"
  by (induction vss arbitrary: d) (auto simp: full_loop_def distinct_full_steps)

lemma same_group_iff:
  assumes "distinct (map fst d)"
  shows "same_group d a b \<longleftrightarrow> (\<exists>h. a \<in> set (dd_get d h) \<and> b \<in> set (dd_get d h))"
proof
  assume "same_group d a b"
  then obtain h fl where "(h, fl) \<in> set d" "a \<in> set fl" "b \<in> set fl"
    by (auto simp: same_group_def list_ex_iff)
  with assms have "dd_get d h = fl" by (simp add: dd_get_def)
  with \<open>a \<in> set fl\<close> \<open>b \<in> set fl\<close> show "\<exists>h. a \<in> set (dd_get d h) \<and> b \<in> set (dd_get d h)" by blast
next
  assume "\<exists>h. a \<in> set (dd_get d h) \<and> b \<in> set (dd_get d h)"
  then obtain h where h: "a \<in> set (dd_get d h)" "b \<in> set (dd_get d h)" by blast
  then obtain fl where "map_of d h = Some fl" by (cases "map_of d h") (auto simp: dd_get_def)
  with h have "(h, fl) \<in> set d" "a \<in> set fl" "b \<in> set fl"
    by (auto simp: dd_get_def dest: map_of_SomeD)
  then show "same_group d a b" unfolding same_group_def list_ex_iff by force
qed

lemma two_members: "a \<noteq> b \<Longrightarrow> a \<in> set xs \<Longrightarrow> b \<in> set xs \<Longrightarrow> 2 \<le> length xs"
proof -
  assume "a \<noteq> b" "a \<in> set xs" "b \<in> set xs"
  then have "card {a, b} \<le> card (set xs)" by (intro card_mono) auto
  also have "\<dots> \<le> length xs" by (rule card_length)
  finally show ?thesis using \<open>a \<noteq> b\<close> by simp
qed

lemma dd_get_member_entry:
  "a \<in> set (dd_get d k) \<Longrightarrow> dd_get d k \<in> snd ` set d"
  by (cases "map_of d k") (auto simp: dd_get_def dest!: map_of_SomeD intro: rev_image_eqI)

lemma in_concat_groups:
  assumes "fl \<in> snd ` set m" and "2 \<le> length fl" and "a \<in> set fl" and "P a"
  shows "a \<in> set (concat (map (\<lambda>fl. if length fl < 2 then [] else filter P fl) (map snd m)))"
proof -
  from assms(1) obtain e where e: "e \<in> set m" "snd e = fl" by auto
  with assms(2-4) have "\<not> length (snd e) < 2" "a \<in> set (snd e)" "P a" by simp_all
  with e(1) show ?thesis by auto
qed

lemma dd_get_find_duplicates:
  "dd_get (find_duplicates fs H path ff []) h =
   concat (map (\<lambda>fl. if length fl < 2 then [] else filter (\<lambda>p. get_hash fs p False H = Inr h) fl)
     (map snd (foldl (small_loop fs H) [] (foldl (size_step fs ff) [] (rglob fs path)))))"
  by (simp add: find_duplicates_def dd_get_full_loop dd_get_Nil)

lemma distinct_find_duplicates:
  "distinct (map fst (find_duplicates fs H path ff []))"
  by (simp add: find_duplicates_def distinct_full_loop)

lemma find_duplicates_sound:
  assumes "a \<in> set (dd_get (find_duplicates fs H path ff []) h)"
  shows "get_hash fs a False H = Inr h"
  using assms by (auto simp: dd_get_find_duplicates split: if_splits)

lemma find_duplicates_complete:
  assumes ab: "a \<noteq> b"
    and a: "a \<in> set (rglob fs path)" "ff a" "map_of fs a = Some f"
    and b: "b \<in> set (rglob fs path)" "ff b" "map_of fs b = Some f"
  shows "a \<in> set (dd_get (find_duplicates fs H path ff []) (H f))
       \<and> b \<in> set (dd_get (find_duplicates fs H path ff []) (H f))"
proof -
  let ?S = "foldl (size_step fs ff) [] (rglob fs path)"
  let ?M = "foldl (small_loop fs H) [] ?S"
  let ?n = "length f"
  let ?k = "(?n, H (take 1024 f))"
  have S: "a \<in> set (dd_get ?S ?n)" "b \<in> set (dd_get ?S ?n)"
    using a b by (simp_all add: dd_get_size_loop dd_get_Nil is_file_def st_size_def)
  then have S2: "2 \<le> length (dd_get ?S ?n)" using ab by (rule two_members [rotated])
  have dS: "distinct (map fst ?S)" by (simp add: distinct_size_loop)
  have M: "a \<in> set (dd_get ?M ?k)" "b \<in> set (dd_get ?M ?k)"
    using S S2 a b by (simp_all add: dd_get_small_loop [OF dS] dd_get_Nil get_hash_first)
  then have M2: "2 \<le> length (dd_get ?M ?k)" using ab by (rule two_members [rotated])
  have entry: "dd_get ?M ?k \<in> snd ` set ?M" using M(1) by (rule dd_get_member_entry)
  have "get_hash fs a False H = Inr (H f)" "get_hash fs b False H = Inr (H f)"
    using a b by (simp_all add: get_hash_full)
  with M M2 entry show ?thesis
    unfolding dd_get_find_duplicates by (blast intro: in_concat_groups)
qed



subsection \<open>How many members of a group the removal loop leaves\<close>

text \<open>
  For a group of two or more different files that are all on disk, the inner loop of
  \<open>remove_duplicates\<close> ends without an exception and leaves half of the group, rounded
  down: the files it dropped from the list are the ones it deleted, the others are still
  on disk. One member is left only when the group has two or three.
\<close>

lemma map_of_filter_neq:
  "map_of (filter (\<lambda>e. fst e \<noteq> p) fs) q = (if q = p then None else map_of fs q)"
  by (induction fs) auto

lemma is_file_unlink:
  "unlink p fs = Inr fs' \<Longrightarrow> is_file fs' q \<longleftrightarrow> q \<noteq> p \<and> is_file fs q"
  by (auto simp: unlink_def is_file_def map_of_filter_neq split: if_splits)

lemma half_step:
  assumes "i < n"
  shows "(n - 1) - ((n - 1) - Suc i + 1) div 2 = n - (n - i + 1) div (2::nat)"
proof -
  from assms obtain k where n: "n = Suc (i + k)" by (auto simp: less_iff_Suc_add)
  show ?thesis by (cases k) (simp_all add: n)
qed

lemma remove_loop_survivors:
  assumes "distinct grp" and "\<forall>p\<in>set grp. is_file fs p"
    and "i < length grp \<longrightarrow> 1 < length grp"
  shows "\<exists>grp' fs'. remove_loop i grp fs = Inr (grp', fs')
           \<and> length grp' = length grp - (length grp - i + 1) div 2
           \<and> set grp' \<subseteq> set grp
           \<and> (\<forall>p. is_file fs' p \<longleftrightarrow> is_file fs p \<and> (p \<in> set grp \<longrightarrow> p \<in> set grp'))"
  using assms
proof (induction i grp fs rule: remove_loop.induct)
  case (1 i grp fs)
  show ?case
  proof (cases "i < length grp")
    case False
    then show ?thesis by (subst remove_loop.simps) auto
  next
    case True
    with "1.prems" have many: "1 < length grp" by simp
    let ?file = "grp ! i"
    let ?grp1 = "remove1 ?file grp"
    from True have mem: "?file \<in> set grp" by simp
    with "1.prems" have "is_file fs ?file" by simp
    then obtain fs1 where u: "unlink ?file fs = Inr fs1" by (auto simp: unlink_def)
    have d1: "distinct ?grp1" using "1.prems"(1) by simp
    have s1: "set ?grp1 = set grp - {?file}" using "1.prems"(1) by simp
    have f1: "\<forall>p\<in>set ?grp1. is_file fs1 p"
      using "1.prems"(2) s1 by (auto simp: is_file_unlink [OF u])
    have l1: "length ?grp1 = length grp - 1" using mem by (simp add: length_remove1)
    have g1: "Suc i < length ?grp1 \<longrightarrow> 1 < length ?grp1" by simp
    from "1.IH"(1) [OF True refl many u d1 f1 g1]
    obtain grp' fs' where r: "remove_loop (Suc i) ?grp1 fs1 = Inr (grp', fs')"
      and len: "length grp' = length ?grp1 - (length ?grp1 - Suc i + 1) div 2"
      and sub: "set grp' \<subseteq> set ?grp1"
      and disk: "\<forall>p. is_file fs' p \<longleftrightarrow> is_file fs1 p \<and> (p \<in> set ?grp1 \<longrightarrow> p \<in> set grp')"
      by blast
    have "remove_loop i grp fs = Inr (grp', fs')"
      using True many u r by (subst remove_loop.simps) (simp add: Let_def)
    moreover have "length grp' = length grp - (length grp - i + 1) div 2"
      using len l1 half_step [OF True] by simp
    moreover have "set grp' \<subseteq> set grp" using sub s1 by auto
    moreover have "\<forall>p. is_file fs' p \<longleftrightarrow> is_file fs p \<and> (p \<in> set grp \<longrightarrow> p \<in> set grp')"
    proof (intro allI)
      fix p
      show "is_file fs' p \<longleftrightarrow> is_file fs p \<and> (p \<in> set grp \<longrightarrow> p \<in> set grp')"
      proof (cases "p = ?file")
        case True
        with sub s1 have "p \<notin> set grp'" by blast
        with True mem disk show ?thesis by (simp add: is_file_unlink [OF u])
      next
        case False
        with disk s1 show ?thesis by (simp add: is_file_unlink [OF u])
      qed
    qed
    ultimately show ?thesis by blast
  qed
qed

lemma remove_loop_half:
  assumes "distinct grp" and "\<forall>p\<in>set grp. is_file fs p" and "2 \<le> length grp"
  shows "\<exists>grp' fs'. remove_loop 0 grp fs = Inr (grp', fs')
           \<and> length grp' = length grp div 2
           \<and> set grp' \<subseteq> set grp
           \<and> (\<forall>p. is_file fs' p \<longleftrightarrow> is_file fs p \<and> (p \<in> set grp \<longrightarrow> p \<in> set grp'))"
proof -
  have "length grp - (length grp - 0 + 1) div 2 = length grp div 2" by simp
  with remove_loop_survivors [OF assms(1,2), of 0] assms(3) show ?thesis by auto
qed

lemma is_video_mp4:
  "is_video (Path ''out'' ''a.mp4'')" "is_video (Path ''out'' ''b.mp4'')"
  "is_video (Path ''out'' ''c.mp4'')" "is_video (Path ''out'' ''d.mp4'')"
  by (simp_all add: is_video_def suffix_def rfind_def lower_def lower_char_def video_formats_def)

text \<open>
  C1. \<open>remove_duplicates\<close> on a group of four identical files: the inner loop deletes the
  first and the third and stops, so two members survive on disk, while the counter reports
  three removed duplicates. (The files are videos: for them \<open>is_photo\<close> answers
  \<open>False\<close> at its first test, so that the filter \<open>is_photo(f) or is_video(f)\<close> of the
  source is \<open>is_video\<close>.)
\<close>

theorem remove_duplicates_group_of_four:
  "remove_duplicates
     [(Path ''out'' ''a.mp4'', ''x''), (Path ''out'' ''b.mp4'', ''x''),
      (Path ''out'' ''c.mp4'', ''x''), (Path ''out'' ''d.mp4'', ''x'')]
     hash_algo ''out'' is_video [] 0
   = Inr ([(hash_algo ''x'', [Path ''out'' ''b.mp4'', Path ''out'' ''d.mp4''])],
          [(Path ''out'' ''b.mp4'', ''x''), (Path ''out'' ''d.mp4'', ''x'')],
          3)"
  by (simp add: remove_duplicates_def find_duplicates_def rglob_def below_def size_step_def
      is_file_def st_size_def small_loop_def small_step_def get_hash_first get_hash_full
      full_loop_def full_step_def remove_loop.simps unlink_def is_video_mp4)

section \<open>Properties of the collision-safe namer\<close>

lemma new_name_loop_result:
  "\<not> is_file fs (fst (new_name_loop fs file new_name i rename_map))
   \<and> snd (new_name_loop fs file new_name i rename_map)
       = (if is_file fs new_name
          then rename_map(str file \<mapsto> fst (new_name_loop fs file new_name i rename_map))
          else rename_map)
   \<and> (\<not> is_file fs new_name \<longrightarrow> fst (new_name_loop fs file new_name i rename_map) = new_name)"
proof (induction fs "file" new_name i rename_map rule: new_name_loop.induct)
  case (1 fs p0 new_name i rename_map)
  show ?case
  proof (cases "is_file fs new_name")
    case False
    then show ?thesis by (simp add: new_name_loop.simps)
  next
    case True
    with 1 show ?thesis
      by (subst (1 2 3 4) new_name_loop.simps) (simp del: fun_upd_apply)
  qed
qed

text \<open>
  What one call of \<open>new_name_if_exists\<close> does to the rename map: no regular file
  exists at the path it returns; when the proposed path is free the map is unchanged; when
  it is taken, the entry of the proposed path is set to the returned path, whatever entry
  it had.
\<close>

lemma new_name_if_exists_entry:
  "\<not> is_file fs (fst (new_name_if_exists fs file rename_map))
   \<and> snd (new_name_if_exists fs file rename_map)
       = (if is_file fs file
          then rename_map(str file \<mapsto> fst (new_name_if_exists fs file rename_map))
          else rename_map)"
  using new_name_loop_result [of fs "file" "file" 1 rename_map]
  by (simp add: new_name_if_exists_def del: fun_upd_apply)

text \<open>
  C4. Three videos named \<open>a.mp4\<close>, from three input folders, are copied into \<open>out\<close> by
  \<open>for_all_files_recursive\<close> with \<open>copy_to_target\<close> (for videos the test
  \<open>is_photo(f) or is_video(f)\<close> is \<open>is_video\<close>). After the second copy the rename map
  sends \<open>out/a.mp4\<close> to \<open>out/a(1).mp4\<close>. The third copy, stored as \<open>out/a(2).mp4\<close>,
  overwrites that entry: at the end of the run the three files are in \<open>out\<close> and the
  rename map holds the one entry from \<open>out/a.mp4\<close> to \<open>out/a(2).mp4\<close>, so the rename
  to \<open>out/a(1).mp4\<close> is recorded nowhere. The map is declared as holding all the renamed
  files that clashed, and an entry once recorded is meant to stay.
\<close>

theorem rename_map_overwritten:
  "for_all_files_recursive [Path ''in/x'' ''a.mp4'', Path ''in/y'' ''a.mp4'']
     (copy_to_target ''out'' is_video) is_video
     ([(Path ''in/x'' ''a.mp4'', ''x''), (Path ''in/y'' ''a.mp4'', ''y''),
       (Path ''in/z'' ''a.mp4'', ''z'')], Map.empty, 0)
   = Inr ([(Path ''in/x'' ''a.mp4'', ''x''), (Path ''in/y'' ''a.mp4'', ''y''),
           (Path ''in/z'' ''a.mp4'', ''z''), (Path ''out'' ''a.mp4'', ''x''),
           (Path ''out'' ''a(1).mp4'', ''y'')],
          [''out/a.mp4'' \<mapsto> Path ''out'' ''a(1).mp4''], 2)
   \<and> for_all_files_recursive
       [Path ''in/x'' ''a.mp4'', Path ''in/y'' ''a.mp4'', Path ''in/z'' ''a.mp4'']
       (copy_to_target ''out'' is_video) is_video
       ([(Path ''in/x'' ''a.mp4'', ''x''), (Path ''in/y'' ''a.mp4'', ''y''),
         (Path ''in/z'' ''a.mp4'', ''z'')], Map.empty, 0)
     = Inr ([(Path ''in/x'' ''a.mp4'', ''x''), (Path ''in/y'' ''a.mp4'', ''y''),
             (Path ''in/z'' ''a.mp4'', ''z''), (Path ''out'' ''a.mp4'', ''x''),
             (Path ''out'' ''a(1).mp4'', ''y''), (Path ''out'' ''a(2).mp4'', ''z'')],
            [''out/a.mp4'' \<mapsto> Path ''out'' ''a(2).mp4''], 3)"
  by (simp add: is_video_def lower_def lower_char_def video_formats_def copy_to_target_def
        new_name_if_exists_def new_name_loop.simps is_file_def copy2_def numbered_def
        with_name_def stem_def suffix_def rfind_def str_nat.simps digit_char_def str_def)

section \<open>Properties of the metadata fixer\<close>

lemma try_tags_files:
  "try_tags lib file exif_dict tags st = Inr st' \<Longrightarrow> files st' = files st"
  by (induction tags)
     (auto simp: set_creation_date_from_str_def split: option.splits sum.splits if_splits)

lemma set_creation_date_from_exif_files:
  "set_creation_date_from_exif lib file st = Inr st' \<Longrightarrow> files st' = files st"
  unfolding set_creation_date_from_exif_def
  by (cases "exif st file") (auto dest: try_tags_files simp del: try_tags.simps)

lemma find_json_for_file_unreadable:
  assumes "map_of (files st) (with_name file_obj (name file_obj @ ''.json'')) = Some f"
    and "json_load lib f = None"
  shows "find_json_for_file lib file_obj st = (Inl FileNotFoundError, st)"
  using assms by (simp add: find_json_for_file_def is_file_def read_json_def)

lemma after_exif_unreadable:
  assumes "map_of (files st) (with_name file_obj (name file_obj @ ''.json'')) = Some f"
    and "json_load lib f = None"
  shows "after_exif lib file_obj has_nice_date st =
         (if has_nice_date then (Inr True, st) else folder_step lib file_obj st)"
  using find_json_for_file_unreadable [OF assms]
  by (simp add: after_exif_def sidecar_step_def)

text \<open>
  C6. When the literal sidecar \<open><filename>.json\<close> exists and \<open>json.load\<close> fails on it,
  \<open>find_json_for_file\<close> raises \<open>FileNotFoundError\<close> and leaves the state as it was: the
  title index of the folder is neither built nor read, whatever it holds. \<open>fix_metadata\<close>
  carries on as for a missing sidecar: it is done when the EXIF step found a date, and runs
  the folder step otherwise.
\<close>

theorem unreadable_sidecar_is_not_found:
  assumes "map_of (files st) (with_name file_obj (name file_obj @ ''.json'')) = Some f"
    and "json_load lib f = None"
  shows "find_json_for_file lib file_obj st = (Inl FileNotFoundError, st)
       \<and> fix_metadata lib file_obj st =
           (case set_creation_date_from_exif lib file_obj st of
              Inr st1 \<Rightarrow> (Inr True, st1)
            | Inl e \<Rightarrow>
                if e = InvalidImageDataError \<or> e = ValueError \<or> is_OSError e
                then folder_step lib file_obj st
                else (Inl e, st))"
proof -
  have "after_exif lib file_obj True st1 = (Inr True, st1)"
    if "set_creation_date_from_exif lib file_obj st = Inr st1" for st1
  proof -
    from that have "files st1 = files st"
      by (rule set_creation_date_from_exif_files)
    with assms show ?thesis by (simp add: after_exif_unreadable)
  qed
  moreover have "after_exif lib file_obj False st = folder_step lib file_obj st"
    using assms by (simp add: after_exif_unreadable)
  ultimately show ?thesis
    using find_json_for_file_unreadable [OF assms]
    by (simp add: fix_metadata_def split: sum.splits)
qed

text \<open>
  A JPEG file whose literal sidecar holds the single byte \<open>{\<close>, in a state whose title
  index already lists a sidecar under the file's name: the lookup fails all the same.
\<close>

theorem unreadable_sidecar_is_not_found_witness:
  "map_of [(Path ''in'' ''a.jpg'', ''x''), (Path ''in'' ''a.jpg.json'', ''{'')]
      (with_name (Path ''in'' ''a.jpg'') (name (Path ''in'' ''a.jpg'') @ ''.json'')) = Some ''{''
   \<and> json_load example_lib ''{'' = None
   \<and> fst (find_json_for_file example_lib (Path ''in'' ''a.jpg'')
        ((initial_state [(Path ''in'' ''a.jpg'', ''x''), (Path ''in'' ''a.jpg.json'', ''{'')] Map.empty)
           \<lparr>all_jsons_dict := [''in'' \<mapsto> [(JStr ''a.jpg'', sidecar_json)]]\<rparr>))
     = Inl FileNotFoundError
   \<and> s_no_json_found (snd (find_json_for_file example_lib (Path ''in'' ''a.jpg'')
        ((initial_state [(Path ''in'' ''a.jpg'', ''x''), (Path ''in'' ''a.jpg.json'', ''{'')] Map.empty)
           \<lparr>all_jsons_dict := [''in'' \<mapsto> [(JStr ''a.jpg'', sidecar_json)]]\<rparr>))) = []"
proof -
  let ?st = "(initial_state [(Path ''in'' ''a.jpg'', ''x''), (Path ''in'' ''a.jpg.json'', ''{'')] Map.empty)
           \<lparr>all_jsons_dict := [''in'' \<mapsto> [(JStr ''a.jpg'', sidecar_json)]]\<rparr>"
  have f: "map_of (files ?st) (with_name (Path ''in'' ''a.jpg'') (name (Path ''in'' ''a.jpg'') @ ''.json''))
             = Some ''{''"
    by (simp add: initial_state_def with_name_def)
  have l: "json_load example_lib ''{'' = None"
    by (simp add: example_lib_def sidecar_text_def)
  show ?thesis
    using unreadable_sidecar_is_not_found [OF f l] f l
    by (simp add: initial_state_def)
qed

section \<open>Properties of the floating-point rounding\<close>

text \<open>
  \<open>py_round\<close> in terms of the floor alone, the form in which it is evaluated.
\<close>

lemma py_round_floor [code]:
  "py_round x =
     (if x - of_int \<lfloor>x\<rfloor> < 1 / 2 then \<lfloor>x\<rfloor>
      else if 1 / 2 < x - of_int \<lfloor>x\<rfloor> then \<lfloor>x\<rfloor> + 1
      else if \<lfloor>x\<rfloor> mod 2 = 0 then \<lfloor>x\<rfloor> else \<lfloor>x\<rfloor> + 1)"
  by (simp add: py_round_def frac_def even_iff_mod_2_eq_zero)

text \<open>Rounding to an integer moves a number by at most a half.\<close>

lemma py_round_near: "\<bar>of_int (py_round y) - y\<bar> \<le> 1 / 2"
proof -
  define r where "r = y - of_int \<lfloor>y\<rfloor>"
  have r: "0 \<le> r" "r < 1" unfolding r_def by linarith+
  have y: "y = of_int \<lfloor>y\<rfloor> + r" by (simp add: r_def)
  have "py_round y = \<lfloor>y\<rfloor> \<and> r \<le> 1 / 2 \<or> py_round y = \<lfloor>y\<rfloor> + 1 \<and> 1 / 2 \<le> r"
    unfolding py_round_floor r_def [symmetric] by auto
  then show ?thesis
  proof
    assume "py_round y = \<lfloor>y\<rfloor> \<and> r \<le> 1 / 2"
    then have "of_int (py_round y) - y = - r" "r \<le> 1 / 2" using y by simp_all
    with r show ?thesis by simp
  next
    assume "py_round y = \<lfloor>y\<rfloor> + 1 \<and> 1 / 2 \<le> r"
    then have "of_int (py_round y) - y = 1 - r" "1 / 2 \<le> r" using y by simp_all
    with r show ?thesis by simp
  qed
qed

lemma py_round_nonneg: "0 \<le> y \<Longrightarrow> 0 \<le> py_round y"
  unfolding py_round_floor by (auto simp: add_nonneg_nonneg)

lemma float_exponent_le:
  assumes "x \<noteq> 0"
  shows "2 powi float_exponent x \<le> \<bar>x\<bar>"
proof -
  obtain n d where q: "quotient_of \<bar>x\<bar> = (n, d)" by (cases "quotient_of \<bar>x\<bar>")
  then have d: "0 < d" and x: "\<bar>x\<bar> = of_int n / of_int d"
    by (auto dest: quotient_of_denom_pos quotient_of_div)
  from assms have "0 < \<bar>x\<bar>" by simp
  then have "0 < (of_int n :: rat) / of_int d" by (simp only: x)
  with d have n: "0 < n" by (simp add: zero_less_divide_iff)
  show ?thesis
  proof (cases "2 powi (bitlen n - bitlen d) \<le> \<bar>x\<bar>")
    case True
    then show ?thesis by (simp add: float_exponent_def q)
  next
    case False
    from bitlen_bounds [OF n] have "2 ^ nat (bitlen n - 1) \<le> n" by simp
    then have "(2::rat) ^ nat (bitlen n - 1) \<le> of_int n"
      by (metis of_int_le_iff of_int_numeral of_int_power)
    moreover have "1 \<le> bitlen n" using n bitlen_bounds [OF n] bitlen_nonneg [of n]
      by (cases "bitlen n = 0") auto
    ultimately have a: "(2::rat) powi (bitlen n - 1) \<le> of_int n"
      by (simp add: power_int_def)
    from bitlen_bounds [OF d] have "d < 2 ^ nat (bitlen d)" by simp
    then have "of_int d < (2::rat) ^ nat (bitlen d)"
      by (metis of_int_less_iff of_int_numeral of_int_power)
    then have b: "of_int d \<le> (2::rat) powi (bitlen d)"
      using bitlen_nonneg [of d] by (simp add: power_int_def)
    have e: "bitlen n - bitlen d - 1 = (bitlen n - 1) - bitlen d" by simp
    have "(2::rat) powi (bitlen n - bitlen d - 1) = 2 powi (bitlen n - 1) / 2 powi (bitlen d)"
      unfolding e by (rule power_int_diff) simp
    also have "\<dots> \<le> of_int n / 2 powi (bitlen d)"
      using a by (simp add: divide_right_mono)
    also have "\<dots> \<le> of_int n / of_int d"
      using b d n by (simp add: divide_left_mono)
    finally have "(2::rat) powi (bitlen n - bitlen d - 1) \<le> \<bar>x\<bar>" by (simp only: x)
    moreover have "float_exponent x = bitlen n - bitlen d - 1"
      using False by (simp add: float_exponent_def q)
    ultimately show ?thesis by simp
  qed
qed

text \<open>
  Rounding to binary64 moves a number below \<open>2 ^ (k + 1)\<close> by at most half the spacing
  \<open>2 ^ (k - 52)\<close>, and keeps its sign.
\<close>

lemma rnd_near:
  assumes "\<bar>x\<bar> < 2 powi (k + 1)" and "- 1022 \<le> k"
  shows "\<bar>rnd x - x\<bar> \<le> 2 powi (k - 53)"
proof (cases "x = 0")
  case True
  then show ?thesis by (simp add: rnd_def)
next
  case False
  define m where "m = max (float_exponent x) (- 1022)"
  define ulp :: rat where "ulp = 2 powi (m - 52)"
  have "float_exponent x < k + 1"
  proof (rule ccontr)
    assume "\<not> float_exponent x < k + 1"
    then have "(2::rat) powi (k + 1) \<le> 2 powi float_exponent x"
      by (intro power_int_increasing) simp_all
    with float_exponent_le [OF False] assms(1) show False by simp
  qed
  with assms(2) have "m \<le> k" by (simp add: m_def)
  then have ulp_le: "ulp \<le> 2 powi (k - 52)"
    unfolding ulp_def by (intro power_int_increasing) simp_all
  have ulp_pos: "0 < ulp" by (simp add: ulp_def)
  have r: "rnd x = of_int (py_round (x / ulp)) * ulp"
    using False by (simp add: rnd_def ulp_def m_def Let_def)
  have "rnd x - x = (of_int (py_round (x / ulp)) - x / ulp) * ulp"
    using ulp_pos by (simp add: r algebra_simps)
  then have "\<bar>rnd x - x\<bar> = \<bar>of_int (py_round (x / ulp)) - x / ulp\<bar> * ulp"
    using ulp_pos by (simp add: abs_mult)
  also have "\<dots> \<le> (1 / 2) * ulp"
    using py_round_near [of "x / ulp"] ulp_pos by (intro mult_right_mono) simp_all
  also have "\<dots> \<le> (1 / 2) * 2 powi (k - 52)"
    using ulp_le by simp
  also have "\<dots> = 2 powi (k - 53)"
  proof -
    have "(2::rat) powi (k - 52) = 2 powi (k - 53) * 2"
      using power_int_add_1 [of "2::rat" "k - 53"] by simp
    then show ?thesis by simp
  qed
  finally show ?thesis .
qed

lemma rnd_nonneg: "0 \<le> x \<Longrightarrow> 0 \<le> rnd x"
  by (simp add: rnd_def Let_def py_round_nonneg)

text \<open>
  The accuracy of \<open>degToDmsRational\<close>: the degrees, minutes and hundredths of a second
  it returns denote its argument to within 1/700000 of a degree (half a hundredth of a
  second and the rounding of the five floating-point operations).
\<close>

lemma rnd_near_1:
  assumes "0 \<le> y" and "y < 1"
  shows "\<bar>rnd y - y\<bar> \<le> 1 / 10000000000000000"
proof -
  have "\<bar>rnd y - y\<bar> \<le> 2 powi (- 54)" using rnd_near [of y "- 1"] assms by simp
  also have "\<dots> \<le> 1 / 10000000000000000" by simp
  finally show ?thesis .
qed

lemma rnd_near_64:
  assumes "0 \<le> y" and "y < 64"
  shows "\<bar>rnd y - y\<bar> \<le> 1 / 100000000000000"
proof -
  have "\<bar>rnd y - y\<bar> \<le> 2 powi (- 48)" using rnd_near [of y 5] assms by simp
  also have "\<dots> \<le> 1 / 100000000000000" by simp
  finally show ?thesis .
qed

lemma rnd_near_8192:
  assumes "0 \<le> y" and "y < 8192"
  shows "\<bar>rnd y - y\<bar> \<le> 1 / 1000000000000"
proof -
  have "\<bar>rnd y - y\<bar> \<le> 2 powi (- 41)" using rnd_near [of y 12] assms by simp
  also have "\<dots> \<le> 1 / 1000000000000" by simp
  finally show ?thesis .
qed

lemma sum_bound:
  fixes a b c d :: rat
  assumes "\<bar>a\<bar> \<le> 1 / 2" and "\<bar>b\<bar> \<le> 1 / 1000000000000"
    and "\<bar>c\<bar> \<le> 1 / 10000000000000" and "\<bar>d\<bar> \<le> 1 / 10000000000000"
  shows "\<bar>a / 360000 + b / 360000 + c / 3600 + d / 60\<bar> \<le> 1 / 700000"
proof -
  have "- (1 / 2) \<le> a" "a \<le> 1 / 2" "- (1 / 1000000000000) \<le> b" "b \<le> 1 / 1000000000000"
    "- (1 / 10000000000000) \<le> c" "c \<le> 1 / 10000000000000"
    "- (1 / 10000000000000) \<le> d" "d \<le> 1 / 10000000000000"
    using assms by (simp_all add: abs_le_iff)
  then have "a / 360000 + b / 360000 + c / 3600 + d / 60 \<le> 1 / 700000"
    and "- (a / 360000 + b / 360000 + c / 3600 + d / 60) \<le> 1 / 700000"
    by linarith+
  then show ?thesis by (rule abs_leI)
qed

lemma minutes_near:
  assumes "0 \<le> f" and "f < 1"
  shows "0 \<le> rnd (rnd f * 60)" and "rnd (rnd f * 60) < 64"
    and "\<bar>rnd (rnd f * 60) - f * 60\<bar> \<le> 1 / 10000000000000"
proof -
  have a: "\<bar>rnd f - f\<bar> \<le> 1 / 10000000000000000" using assms by (rule rnd_near_1)
  have a0: "0 \<le> rnd f" using assms(1) by (rule rnd_nonneg)
  have b0: "0 \<le> rnd f * 60" using a0 by simp
  have b1: "rnd f * 60 < 64" using a assms by linarith
  from b0 b1 have b: "\<bar>rnd (rnd f * 60) - rnd f * 60\<bar> \<le> 1 / 100000000000000"
    by (rule rnd_near_64)
  show "0 \<le> rnd (rnd f * 60)" using b0 by (rule rnd_nonneg)
  show "rnd (rnd f * 60) < 64" using a b assms by linarith
  show "\<bar>rnd (rnd f * 60) - f * 60\<bar> \<le> 1 / 10000000000000" using a b by linarith
qed

lemma degToDmsRational_accuracy:
  "\<bar>dms_value (degToDmsRational x) - x\<bar> \<le> 1 / 700000"
proof -
  define f where "f = x - of_int \<lfloor>x\<rfloor>"
  define m where "m = rnd (rnd f * 60)"
  define g where "g = m - of_int \<lfloor>m\<rfloor>"
  define s where "s = rnd (rnd g * 60)"
  define t where "t = rnd (s * 100)"
  have f: "0 \<le> f" "f < 1" unfolding f_def by linarith+
  have g: "0 \<le> g" "g < 1" unfolding g_def by linarith+
  note M = minutes_near [OF f, folded m_def]
  note S = minutes_near [OF g, folded s_def]
  have "0 \<le> s * 100" "s * 100 < 8192" using S(1,2) by linarith+
  then have T: "\<bar>t - s * 100\<bar> \<le> 1 / 1000000000000" unfolding t_def by (rule rnd_near_8192)
  have R: "\<bar>of_int (py_round t) - t\<bar> \<le> 1 / 2" by (rule py_round_near)
  have D: "degToDmsRational x = [(\<lfloor>x\<rfloor>, 1), (\<lfloor>m\<rfloor>, 1), (py_round t, 100)]"
    by (simp add: degToDmsRational_def mod1_def Let_def f_def m_def g_def s_def t_def)
  have "dms_value (degToDmsRational x) - x
          = (of_int (py_round t) - t) / 360000 + (t - s * 100) / 360000
            + (s - g * 60) / 3600 + (m - f * 60) / 60"
    by (simp add: D f_def g_def field_simps)
  with sum_bound [OF R T S(3) M(3)] show ?thesis by simp
qed

text \<open>
  Values of \<open>degToDmsRational\<close>. The binary64 number nearest to 0.3 is a little below
  it, and the remainder of its 18 minutes is absorbed by the rounding of \<open>* 60\<close>, so that
  the result is 18 minutes and no seconds (in exact arithmetic it would be 17 minutes and
  60 seconds).
\<close>

lemma rnd_three_tenths: "rnd (3 / 10) = 5404319552844595 / 18014398509481984"
  by code_simp

lemma degToDmsRational_values:
  "degToDmsRational (5404319552844595 / 18014398509481984) = [(0, 1), (18, 1), (0, 100)]"
  "degToDmsRational 45 = [(45, 1), (0, 1), (0, 100)]"
  "degToDmsRational 122 = [(122, 1), (0, 1), (0, 100)]"
  "degToDmsRational (361 / 8) = [(45, 1), (7, 1), (3000, 100)]"
  "degToDmsRational (1953 / 16) = [(122, 1), (3, 1), (4500, 100)]"
  by code_simp+

lemma py_round_values: "py_round 30 = 30" "py_round (61 / 2) = 30" "py_round (63 / 2) = 32"
  by code_simp+

section \<open>Properties of the GPS write\<close>

lemmas gps_tags = GPSVersionID_def GPSLatitudeRef_def GPSLatitude_def GPSLongitudeRef_def
  GPSLongitude_def GPSAltitudeRef_def GPSAltitude_def

lemma gps_ifd_of_zero:
  "gps_ifd_of 0 0 altitude =
     (if altitude = 0 then [GPSVersionID \<mapsto> EInts [2, 0, 0, 0]]
      else [GPSVersionID \<mapsto> EInts [2, 0, 0, 0], GPSAltitudeRef \<mapsto> EInt 1,
            GPSAltitude \<mapsto> ERational (py_round altitude, 1)])"
  by (simp add: gps_ifd_of_def change_to_rational_def)

lemma gps_ifd_of_coordinates:
  assumes "latitude \<noteq> 0 \<or> longitude \<noteq> 0"
  shows "gps_ifd_of longitude latitude altitude GPSLatitudeRef
           = Some (EStr (if latitude \<ge> 0 then ''N'' else ''S''))"
    and "gps_ifd_of longitude latitude altitude GPSLatitude
           = Some (ERationals (degToDmsRational \<bar>latitude\<bar>))"
    and "gps_ifd_of longitude latitude altitude GPSLongitudeRef
           = Some (EStr (if longitude \<ge> 0 then ''E'' else ''W''))"
    and "gps_ifd_of longitude latitude altitude GPSLongitude
           = Some (ERationals (degToDmsRational \<bar>longitude\<bar>))"
  using assms by (auto simp: gps_ifd_of_def gps_tags Let_def abs_if)

lemma gps_ifd_of_altitude:
  assumes "altitude \<noteq> 0"
  shows "gps_ifd_of longitude latitude altitude GPSAltitudeRef = Some (EInt 1)"
    and "gps_ifd_of longitude latitude altitude GPSAltitude
           = Some (ERational (py_round altitude, 1))"
  using assms by (auto simp: gps_ifd_of_def gps_tags Let_def change_to_rational_def)

lemma set_file_geo_data_selected:
  assumes "geo_select json = Inr (longitude, latitude, altitude)"
  shows "set_file_geo_data lib file json st =
         Inr (if piexif_insert lib
                   ((case exif st file of None \<Rightarrow> empty_exif | Some d \<Rightarrow> d)
                      \<lparr>GPS := gps_ifd_of longitude latitude altitude\<rparr>) file
              then st\<lparr>exif := (exif st)(file \<mapsto>
                     (case exif st file of None \<Rightarrow> empty_exif | Some d \<Rightarrow> d)
                       \<lparr>GPS := gps_ifd_of longitude latitude altitude\<rparr>)\<rparr>
              else st)"
  using assms by (simp add: set_file_geo_data_def Let_def)

lemma insert_jpg: "piexif_insert example_lib d (Path ''in'' ''a.jpg'')"
  by (simp add: example_lib_def suffix_def rfind_def lower_def lower_char_def)

text \<open>
  C10. \<open>_str_to_float\<close> returns 0.0 for every string, whatever it spells, also one that
  spells a number: a coordinate given as a string is treated as zero.
\<close>

theorem str_to_float_of_string: "str_to_float (JStr s) = Inr 0"
  by simp

text \<open>
  C7 (as amended). When the selected latitude and longitude are both zero, the GPS table
  handed to the codec holds no latitude or longitude tag. It is not empty: it always holds
  \<open>GPSVersionID\<close>, and it holds \<open>GPSAltitudeRef\<close> and \<open>GPSAltitude\<close> when the
  selected altitude is not zero. It replaces the GPS table the file had.
\<close>

theorem zero_coordinates_gps_write:
  assumes "geo_select json = Inr (0, 0, altitude)"
  shows "set_file_geo_data lib file json st =
         Inr (if piexif_insert lib
                   ((case exif st file of None \<Rightarrow> empty_exif | Some d \<Rightarrow> d)
                      \<lparr>GPS := gps_ifd_of 0 0 altitude\<rparr>) file
              then st\<lparr>exif := (exif st)(file \<mapsto>
                     (case exif st file of None \<Rightarrow> empty_exif | Some d \<Rightarrow> d)
                       \<lparr>GPS := gps_ifd_of 0 0 altitude\<rparr>)\<rparr>
              else st)
       \<and> gps_ifd_of 0 0 altitude =
           (if altitude = 0 then [GPSVersionID \<mapsto> EInts [2, 0, 0, 0]]
            else [GPSVersionID \<mapsto> EInts [2, 0, 0, 0], GPSAltitudeRef \<mapsto> EInt 1,
                  GPSAltitude \<mapsto> ERational (py_round altitude, 1)])"
  using set_file_geo_data_selected [OF assms] gps_ifd_of_zero by blast

theorem zero_coordinates_gps_write_witness:
  "geo_select zero_json = Inr (0, 0, 0)
   \<and> gps_ifd_of 0 0 0 = [GPSVersionID \<mapsto> EInts [2, 0, 0, 0]]"
proof -
  have h: "geo_select zero_json = Inr (0, 0, 0)"
    by (simp add: geo_select_def geo_triple_def geo_field_def zero_json_def)
  show ?thesis
    using zero_coordinates_gps_write [OF h, of example_lib "Path ''in'' ''a.jpg''" "initial_state [] Map.empty"] h
    by simp
qed

text \<open>
  A JPEG file and a sidecar whose \<open>geoData\<close> and \<open>geoDataExif\<close> are all zero: after
  \<open>set_file_geo_data\<close> the file's GPS table holds the tag \<open>GPSVersionID\<close>.
\<close>

theorem zero_coordinates_still_write_gps_tags:
  "(case set_file_geo_data example_lib (Path ''in'' ''a.jpg'') zero_json
           (initial_state [(Path ''in'' ''a.jpg'', ''x'')] [Path ''in'' ''a.jpg'' \<mapsto> empty_exif]) of
      Inl e \<Rightarrow> None
    | Inr st \<Rightarrow> map_option (\<lambda>d. GPS d GPSVersionID) (exif st (Path ''in'' ''a.jpg'')))
   = Some (Some (EInts [2, 0, 0, 0]))"
  by code_simp




section \<open>Properties of the fallback chain\<close>

lemma normalise_sentinel: "normalise_datetime DATE_NOT_FOUND_DATE = DATE_NOT_FOUND_DATE"
  by (simp add: normalise_datetime_def DATE_NOT_FOUND_DATE_def replace_char_def)

lemma set_file_exif_date_lists:
  "s_no_date_at_all (set_file_exif_date lib file d st) = s_no_date_at_all st"
  "s_date_from_folder_files (set_file_exif_date lib file d st) = s_date_from_folder_files st"
  "mtime (set_file_exif_date lib file d st) = mtime st"
  by (simp_all add: set_file_exif_date_def Let_def)

lemma folder_step_default:
  assumes "get_date_from_folder_meta lib (files st) (parent file_obj) = Inr None"
    and "strptime lib DATE_NOT_FOUND_DATE = Some timestamp" and "utime lib file_obj"
  shows "folder_step lib file_obj st =
     (Inr True,
      (set_file_exif_date lib file_obj DATE_NOT_FOUND_DATE
         (st\<lparr>s_no_date_at_all := s_no_date_at_all st @ [str file_obj]\<rparr>))
        \<lparr>mtime := (mtime st)(file_obj \<mapsto> timestamp),
         s_date_from_folder_files := s_date_from_folder_files st @ [str file_obj]\<rparr>)"
  using assms
  by (simp add: folder_step_def set_creation_date_from_str_def normalise_sentinel
      set_file_exif_date_lists Let_def)

text \<open>
  C5. A file for which the EXIF step fails, no sidecar is found and the folder has no
  album metadata gets the sentinel date \<open>1971:01:01 01:01:01\<close> (the EXIF write is the one
  of the sentinel, the modification time is the parsed sentinel) and is appended to
  \<open>s_no_date_at_all\<close>. The same file is also appended to \<open>s_date_from_folder_files\<close>,
  the list of the files dated from folder metadata.
\<close>

theorem default_fallback_also_listed_as_folder_date:
  assumes "set_creation_date_from_exif lib file_obj st = Inl e"
    and "e = InvalidImageDataError \<or> e = ValueError \<or> is_OSError e"
    and "find_json_for_file lib file_obj st = (Inl FileNotFoundError, st1)"
    and "get_date_from_folder_meta lib (files st1) (parent file_obj) = Inr None"
    and "strptime lib DATE_NOT_FOUND_DATE = Some timestamp" and "utime lib file_obj"
  shows "fst (fix_metadata lib file_obj st) = Inr True
       \<and> exif (snd (fix_metadata lib file_obj st))
           = exif (set_file_exif_date lib file_obj DATE_NOT_FOUND_DATE st1)
       \<and> mtime (snd (fix_metadata lib file_obj st)) file_obj = Some timestamp
       \<and> s_no_date_at_all (snd (fix_metadata lib file_obj st))
           = s_no_date_at_all st1 @ [str file_obj]
       \<and> s_date_from_folder_files (snd (fix_metadata lib file_obj st))
           = s_date_from_folder_files st1 @ [str file_obj]"
proof -
  have "fix_metadata lib file_obj st = folder_step lib file_obj st1"
    using assms(1-3) by (auto simp: fix_metadata_def after_exif_def sidecar_step_def)
  then show ?thesis
    by (simp add: folder_step_default [OF assms(4-6)] set_file_exif_date_lists
        set_file_exif_date_def Let_def)
qed

theorem default_fallback_also_listed_as_folder_date_witness:
  "set_creation_date_from_exif example_lib (Path ''in'' ''a.jpg'')
      (initial_state [(Path ''in'' ''a.jpg'', ''x'')] [Path ''in'' ''a.jpg'' \<mapsto> empty_exif])
     = Inl OSError
   \<and> fst (find_json_for_file example_lib (Path ''in'' ''a.jpg'')
        (initial_state [(Path ''in'' ''a.jpg'', ''x'')] [Path ''in'' ''a.jpg'' \<mapsto> empty_exif]))
     = Inl FileNotFoundError
   \<and> get_date_from_folder_meta example_lib [(Path ''in'' ''a.jpg'', ''x'')] ''in'' = Inr None
   \<and> fst (fix_metadata example_lib (Path ''in'' ''a.jpg'')
        (initial_state [(Path ''in'' ''a.jpg'', ''x'')] [Path ''in'' ''a.jpg'' \<mapsto> empty_exif]))
     = Inr True
   \<and> s_no_date_at_all (snd (fix_metadata example_lib (Path ''in'' ''a.jpg'')
        (initial_state [(Path ''in'' ''a.jpg'', ''x'')] [Path ''in'' ''a.jpg'' \<mapsto> empty_exif])))
     = [''in/a.jpg'']
   \<and> s_date_from_folder_files (snd (fix_metadata example_lib (Path ''in'' ''a.jpg'')
        (initial_state [(Path ''in'' ''a.jpg'', ''x'')] [Path ''in'' ''a.jpg'' \<mapsto> empty_exif])))
     = [''in/a.jpg'']"
proof -
  let ?p = "Path ''in'' ''a.jpg''"
  let ?st = "initial_state [(?p, ''x'')] [?p \<mapsto> empty_exif]"
  have x: "set_creation_date_from_exif example_lib ?p ?st = Inl OSError"
    by (simp add: set_creation_date_from_exif_def initial_state_def empty_exif_def)
  have j: "find_json_for_file example_lib ?p ?st
             = (Inl FileNotFoundError, ?st\<lparr>s_no_json_found := [str ?p]\<rparr>)"
    by (simp add: find_json_for_file_def initial_state_def with_name_def is_file_def
        rglob_json_def rglob_def below_def ends_with_def)
  have m: "get_date_from_folder_meta example_lib (files (?st\<lparr>s_no_json_found := [str ?p]\<rparr>)) (parent ?p)
             = Inr None"
    by (simp add: get_date_from_folder_meta_def find_album_meta_json_file_def initial_state_def
        rglob_json_def rglob_def below_def ends_with_def)
  have t: "strptime example_lib DATE_NOT_FOUND_DATE = Some 31539661"
    by (simp add: example_lib_def DATE_NOT_FOUND_DATE_def)
  have u: "utime example_lib ?p" by (simp add: example_lib_def)
  show ?thesis
    using default_fallback_also_listed_as_folder_date [OF x _ j m t u] x j m
    by (simp add: initial_state_def str_def)
qed

text \<open>
  C3. A run over two videos, the first with a sidecar that has a zero \<open>geoData\<close> block and
  no \<open>geoDataExif\<close> block: \<open>set_file_geo_data\<close> raises \<open>KeyError\<close>, which
  \<open>fix_metadata\<close> does not catch, and the loop over the files ends with it before the
  second file is looked at.
\<close>

theorem missing_geoDataExif_aborts_run:
  "(case for_all_files_recursive
           (rglob [(Path ''in'' ''a.mp4'', ''v1''), (Path ''in'' ''a.mp4.json'', sidecar_text),
                   (Path ''in'' ''b.mp4'', ''v2'')] ''in'')
           (fix_metadata_file example_lib) is_video
           (initial_state [(Path ''in'' ''a.mp4'', ''v1''), (Path ''in'' ''a.mp4.json'', sidecar_text),
                           (Path ''in'' ''b.mp4'', ''v2'')] Map.empty) of
      Inl e \<Rightarrow> Some e
    | Inr st \<Rightarrow> None)
   = Some KeyError"
  by code_simp

end
